theory Spec2Isabelle
  imports Main "HOL-Library.Sublist"
begin

section \<open>GQLify: the \<open>init\<close> command\<close>

text \<open>
  The program is a command-line tool with one subcommand. \<^verbatim>\<open>bin/gqlify.ts\<close> registers
  the subcommand with the argument parser; \<^verbatim>\<open>src/commands/init.ts\<close> holds the routine.
  The routine asks for the working directory, computes two paths, tests whether the
  destination exists, copies the bundled template directory when it does not, and prints
  a report.

  The routine calls into Node (\<^verbatim>\<open>process.cwd\<close>) and into two npm packages that are
  dependencies and not part of the repository: \<^verbatim>\<open>fs-extra\<close> (\<^verbatim>\<open>fs.pathExists\<close>,
  \<^verbatim>\<open>fs.copy\<close>) and \<^verbatim>\<open>chalk\<close>. It is therefore embedded over an arbitrary
  implementation of these calls (\<open>platform\<close> below); a reference implementation on a
  tree-shaped filesystem follows in a later section.
\<close>

subsection \<open>Paths\<close>

text \<open>
  An absolute path is the list of its components below the root. \<^verbatim>\<open>process.cwd()\<close> and
  \<^verbatim>\<open>__dirname\<close> are absolute, so \<^verbatim>\<open>path.join\<close> appends a component and
  \<^verbatim>\<open>path.resolve\<close> walks the relative segments from the base, \<^verbatim>\<open>..\<close> dropping the
  last component (the parent of the root is the root).
\<close>

type_synonym path = "string list"

definition path_join :: "path \<Rightarrow> string \<Rightarrow> path" where
  "path_join base name = base @ [name]"

fun path_resolve :: "path \<Rightarrow> string list \<Rightarrow> path" where
  "path_resolve base [] = base"
| "path_resolve base (seg # segs) =
     (if seg = ''..'' then path_resolve (butlast base) segs
      else if seg = ''.'' then path_resolve base segs
      else path_resolve (base @ [seg]) segs)"

text \<open>The text of a path as it is interpolated into a message.\<close>

definition path_text :: "path \<Rightarrow> string" where
  "path_text p = concat (map (\<lambda>c. ''/'' @ c) p)"

subsection \<open>The process and the platform\<close>

text \<open>
  What the process holds for the routine: the directory of the compiled module, the
  command-line arguments after the program name, and the environment variables. The
  working directory is not a field: it is asked of the operating system.
\<close>

record process =
  dirname :: path
  argv :: "string list"
  environ :: "(string \<times> string) list"

text \<open>
  Errors a call can raise: error codes of the operating system, and the errors
  \<^verbatim>\<open>fs-extra\<close> raises itself before it copies.
\<close>

datatype error =
    ENOENT
  | EACCES
  | ENOTDIR
  | EEXIST
  | ELOOP
  | SameSourceAndDestination
  | CannotOverwriteNonDirectory
  | CannotOverwriteDirectory
  | CannotCopyToSubdirectory
  | CannotOverwriteLink

text \<open>
  The calls the routine makes, over any type \<open>'fs\<close> of filesystem states.
  \<^item> \<^verbatim>\<open>process.cwd()\<close> returns the working directory or throws (the directory was removed).
  \<^item> \<^verbatim>\<open>fs.pathExists\<close> resolves to a boolean: it never rejects and does not change the
    filesystem.
  \<^item> \<^verbatim>\<open>fs.copy\<close> resolves or rejects, and leaves a new filesystem state in both cases.
  \<^item> \<^verbatim>\<open>chalk\<close> decides from the command line and the environment whether it colours text.
\<close>

record 'fs platform =
  process_cwd :: "'fs \<Rightarrow> error + path"
  pathExists :: "'fs \<Rightarrow> path \<Rightarrow> bool"
  copy :: "'fs \<Rightarrow> path \<Rightarrow> path \<Rightarrow> error option \<times> 'fs"
  colour_support :: "string list \<Rightarrow> (string \<times> string) list \<Rightarrow> bool"

subsection \<open>Console output and the trace of a run\<close>

datatype colour = Blue | Gray | Yellow | Green | Cyan | White | Red

text \<open>
  A printed line is a list of segments (\<^verbatim>\<open>chalk.white(..) + chalk.gray(..)\<close>), each a text
  with the colour \<^verbatim>\<open>chalk\<close> gave it, if it gave one. \<open>Log\<close> is \<^verbatim>\<open>console.log\<close>
  (standard output), \<open>Err\<close> is \<^verbatim>\<open>console.error\<close> (standard error) with the error value
  printed after the text when one is given. \<open>PathExists\<close> and \<open>Copy\<close> record the calls
  made to \<^verbatim>\<open>fs-extra\<close>, in order, among the printed lines. \<open>Uncaught\<close> is the end of a
  run whose promise was rejected with no handler: Node prints the error and exits with
  code 1. The emoji and bullet glyphs of the messages are not ASCII and are left out of
  the transcribed text; \<open>NL\<close> is the line feed of a \<^verbatim>\<open>\n\<close> inside a message.
\<close>

datatype event =
    Log "(colour option \<times> string) list"
  | Err "(colour option \<times> string) list" "error option"
  | PathExists path
  | Copy path path
  | Uncaught error

abbreviation NL :: char where
  "NL \<equiv> CHR 0x0A"

definition chalk :: "bool \<Rightarrow> colour \<Rightarrow> string \<Rightarrow> colour option \<times> string" where
  "chalk en c s = (if en then Some c else None, s)"

record 'fs outcome =
  trace :: "event list"
  exit_code :: nat
  final_fs :: 'fs

subsection \<open>The routine\<close>

text \<open>Whether \<^verbatim>\<open>chalk\<close> colours the text of this process.\<close>

definition colours :: "'fs platform \<Rightarrow> process \<Rightarrow> bool" where
  "colours sys p = colour_support sys (argv p) (environ p)"

definition targetDir :: "path \<Rightarrow> path" where
  "targetDir d = path_join d ''.claude''"

definition templateDir :: "process \<Rightarrow> path" where
  "templateDir p = path_resolve (dirname p) [''..'', ''..'', ''..'', ''templates'', ''.claude'']"

definition banner :: "bool \<Rightarrow> event list" where
  "banner en =
    [Log [chalk en Blue ('' Initializing GQLify workflow for Claude Code...'')],
     Log [chalk en Gray (''   NestJS + GraphQL development toolkit'' @ [NL])]]"

definition already_exists_warning :: "bool \<Rightarrow> event list" where
  "already_exists_warning en =
    [Log [chalk en Yellow (''  .claude directory already exists. Skipping initialization.'')],
     Log [chalk en Gray (''   To reinstall, remove the existing .claude directory first.'')]]"

definition copying_line :: "bool \<Rightarrow> path \<Rightarrow> event" where
  "copying_line en template = Log [chalk en Gray ('' Copying templates from '' @ path_text template @ ''...'')]"

definition success_line :: "bool \<Rightarrow> event" where
  "success_line en = Log [chalk en Green (NL # '' Successfully created .claude directory!'' @ [NL])]"

definition success_report :: "bool \<Rightarrow> event list" where
  "success_report en =
    [success_line en,
     Log [chalk en Cyan ('' Installed Resources:'')],
     Log [chalk en Gray (''    20 executable skills for code generation'')],
     Log [chalk en Gray (''    Architecture & conventions documentation'')],
     Log [chalk en Gray (''    Security audit guides'')],
     Log [chalk en Gray (''    Testing patterns & templates'' @ [NL])],
     Log [chalk en Cyan ('' Available Skills:'')],
     Log [chalk en Gray (''   Core Generation:'')],
     Log [chalk en White (''     /gqlify:generate-module <Entity>  ''), chalk en Gray (''- Scaffold complete module'')],
     Log [chalk en White (''     /gqlify:generate-field <Module>   ''), chalk en Gray (''- Add DataLoader field'')],
     Log [chalk en White (''     /gqlify:add-field <Module>        ''), chalk en Gray (''- Add entity property'')],
     Log [chalk en Gray (NL # ''   Advanced Features:'')],
     Log [chalk en White (''     /gqlify:add-export <Module>       ''), chalk en Gray (''- CSV/Excel export'')],
     Log [chalk en White (''     /gqlify:add-filter <Module>       ''), chalk en Gray (''- Advanced filtering'')],
     Log [chalk en White (''     /gqlify:add-i18n <Module>         ''), chalk en Gray (''- Internationalization'')],
     Log [chalk en White (''     /gqlify:add-pagination <Module>   ''), chalk en Gray (''- Paginated responses'')],
     Log [chalk en Gray (NL # ''   Code Quality:'')],
     Log [chalk en White (''     /gqlify:validate [--fix]          ''), chalk en Gray (''- Validate code patterns'')],
     Log [chalk en White (''     /gqlify:audit-security            ''), chalk en Gray (''- Security audit'')],
     Log [chalk en White (''     /gqlify:setup                     ''), chalk en Gray (''- Verify project setup'')],
     Log [chalk en Gray (NL # ''   See all 20 skills: ls .claude/skills/'' @ [NL])],
     Log [chalk en Cyan ('' Next Steps:'')],
     Log [chalk en Gray (''   1. Read .claude/README.md for overview'')],
     Log [chalk en Gray (''   2. Review .claude/RULES.md for key constraints'')],
     Log [chalk en Gray (''   3. Try: /gqlify:generate-module Product'')],
     Log [chalk en Gray (''   4. Start building with Claude Code!'' @ [NL])]]"

definition error_report :: "bool \<Rightarrow> error \<Rightarrow> event list" where
  "error_report en e =
    [Err [chalk en Red (NL # '' Error initializing workflow:'')] (Some e),
     Err [chalk en Yellow (NL # '' Troubleshooting:'')] None,
     Err [chalk en Gray (''    Ensure you have write permissions in this directory'')] None,
     Err [chalk en Gray (''    Check that GQLify is properly installed'')] None,
     Err [chalk en Gray (''    Try running with elevated permissions if needed'' @ [NL])] None]"

text \<open>
  \<^verbatim>\<open>init\<close>. The first statement calls \<^verbatim>\<open>process.cwd()\<close>, outside the \<^verbatim>\<open>try\<close>: when it
  throws, the promise of the routine is rejected, nothing has been printed, and since
  \<^verbatim>\<open>bin/gqlify.ts\<close> attaches no handler the run ends there (\<open>Uncaught\<close>, exit code 1).
  Otherwise both paths are computed and the banner printed; inside the \<^verbatim>\<open>try\<close> the
  destination is tested and, when it exists, the warning is printed and the routine
  returns (exit code 0); otherwise the copy is awaited and the success report printed.
  The \<^verbatim>\<open>catch\<close> prints the error report on standard error and calls
  \<^verbatim>\<open>process.exit(1)\<close>; the filesystem is left as the failed call left it.
\<close>

definition init :: "'fs platform \<Rightarrow> process \<Rightarrow> 'fs \<Rightarrow> 'fs outcome" where
  "init sys p fs =
    (case process_cwd sys fs of
       Inl e \<Rightarrow> \<lparr>trace = [Uncaught e], exit_code = 1, final_fs = fs\<rparr>
     | Inr d \<Rightarrow>
        (let target = targetDir d;
             template = templateDir p;
             en = colours sys p;
             t1 = banner en @ [PathExists target]
         in if pathExists sys fs target
            then \<lparr>trace = t1 @ already_exists_warning en, exit_code = 0, final_fs = fs\<rparr>
            else
              (let t2 = t1 @ [copying_line en template, Copy template target]
               in case copy sys fs template target of
                    (None, fs') \<Rightarrow> \<lparr>trace = t2 @ success_report en, exit_code = 0, final_fs = fs'\<rparr>
                  | (Some e, fs') \<Rightarrow> \<lparr>trace = t2 @ error_report en e, exit_code = 1, final_fs = fs'\<rparr>)))"

section \<open>The command-line front end\<close>







section \<open>A reference filesystem and the platform on it\<close>

text \<open>
  The definitions of this section give the platform calls a meaning on a tree-shaped
  filesystem, following the documented behaviour of Node and of \<^verbatim>\<open>fs-extra\<close> with the
  options \<^verbatim>\<open>init\<close> passes (none: \<^verbatim>\<open>overwrite\<close> is true, \<^verbatim>\<open>dereference\<close> is false, no
  filter). The filesystem has regular files, directories and symbolic links, one
  permission flag per file and per directory, and nothing else: no search permission, no
  special files, no hard links, no full disk, no second process that writes during a run.
\<close>

subsection \<open>Files, directories, symbolic links\<close>

text \<open>
  A regular file has a flag (may the user read it) and its bytes; a directory has a
  flag (may the user create and remove entries in it) and its entries by name; a
  symbolic link has its text: whether it starts at the root, and its segments, a name
  or \<^verbatim>\<open>..\<close> each.
\<close>

datatype seg = Up | Name string

datatype node =
    File bool string
  | Dir bool "(string \<times> node) list"
  | Link bool "seg list"

fun is_dir :: "node \<Rightarrow> bool" where
  "is_dir (Dir w es) = True"
| "is_dir n = False"

fun is_name :: "seg \<Rightarrow> bool" where
  "is_name (Name c) = True"
| "is_name Up = False"

fun name_of :: "seg \<Rightarrow> string" where
  "name_of (Name c) = c"
| "name_of Up = ''..''"

text \<open>Names are distinct in every directory of a well-formed tree.\<close>

fun wf :: "node \<Rightarrow> bool"
  and wf_items :: "(string \<times> node) list \<Rightarrow> bool" where
  "wf (File r b) = True"
| "wf (Link a t) = True"
| "wf (Dir w es) = (distinct (map fst es) \<and> wf_items es)"
| "wf_items [] = True"
| "wf_items (e # es) = (wf (snd e) \<and> wf_items es)"

text \<open>
  \<open>entry_at root q\<close> is the entry stored at the place \<open>q\<close> of the tree: every component
  before the last names a directory in the directory before it. No link is followed;
  \<open>q\<close> is a real path, as \<^verbatim>\<open>realpath\<close> would print it.
\<close>

fun entry_at :: "node \<Rightarrow> path \<Rightarrow> node option" where
  "entry_at n [] = Some n"
| "entry_at (Dir w es) (c # q) = (case map_of es c of None \<Rightarrow> None | Some m \<Rightarrow> entry_at m q)"
| "entry_at (File r b) (c # q) = None"
| "entry_at (Link a t) (c # q) = None"

text \<open>
  \<open>resolve k root follow mk cur segs\<close> walks the segments from the directory at the real
  path \<open>cur\<close>, as the operating system resolves a path. A symbolic link met before the
  last segment is followed: its text, from the root or from the directory that holds
  the link, takes its place. A link at the last segment is followed when \<open>follow\<close>
  holds. At most \<open>k\<close> links are followed. The result is the real path the segments lead
  to: a place in an existing directory, which may hold an entry or not. When a
  directory is missing before the last segment the answer is \<open>ENOENT\<close>, unless \<open>mk\<close>
  holds: then the place the remaining names would have is returned (for a caller that
  creates the directories).
\<close>

fun resolve :: "nat \<Rightarrow> node \<Rightarrow> bool \<Rightarrow> bool \<Rightarrow> path \<Rightarrow> seg list \<Rightarrow> error + path" where
  "resolve k root follow mk cur [] = Inr cur"
| "resolve k root follow mk cur (Up # segs) = resolve k root follow mk (butlast cur) segs"
| "resolve k root follow mk cur (Name c # segs) =
     (case entry_at root cur of
        Some (Dir w es) \<Rightarrow>
          (case map_of es c of
             None \<Rightarrow>
               if segs = [] then Inr (cur @ [c])
               else if mk \<and> list_all is_name segs then Inr (cur @ c # map name_of segs)
               else Inl ENOENT
           | Some (Dir w' es') \<Rightarrow> resolve k root follow mk (cur @ [c]) segs
           | Some (File r b) \<Rightarrow> if segs = [] then Inr (cur @ [c]) else Inl ENOTDIR
           | Some (Link a t) \<Rightarrow>
               if segs = [] \<and> \<not> follow then Inr (cur @ [c])
               else (case k of
                       0 \<Rightarrow> Inl ELOOP
                     | Suc j \<Rightarrow> resolve j root follow mk (if a then [] else cur) (t @ segs)))
      | _ \<Rightarrow> Inl ENOTDIR)"

definition max_links :: nat where
  "max_links = 40"

text \<open>
  \<^verbatim>\<open>lstat\<close> and \<^verbatim>\<open>stat\<close> of an absolute path: the real path and the entry found there.
  \<^verbatim>\<open>lstat\<close> reports a link at the last component as itself, \<^verbatim>\<open>stat\<close> follows it.
\<close>

definition found :: "node \<Rightarrow> error + path \<Rightarrow> error + (path \<times> node)" where
  "found fs r =
     (case r of
        Inl e \<Rightarrow> Inl e
      | Inr q \<Rightarrow> (case entry_at fs q of None \<Rightarrow> Inl ENOENT | Some n \<Rightarrow> Inr (q, n)))"

definition lstat :: "node \<Rightarrow> path \<Rightarrow> error + (path \<times> node)" where
  "lstat fs p = found fs (resolve max_links fs False False [] (map Name p))"

definition stat :: "node \<Rightarrow> path \<Rightarrow> error + (path \<times> node)" where
  "stat fs p = found fs (resolve max_links fs True False [] (map Name p))"

text \<open>
  \<^verbatim>\<open>process.cwd()\<close> of a process whose working directory is at the real path \<open>wd\<close>: the
  path, or \<open>ENOENT\<close> when the directory is no longer there.
\<close>

definition fsx_cwd :: "path \<Rightarrow> node \<Rightarrow> error + path" where
  "fsx_cwd wd fs = (case entry_at fs wd of Some (Dir w es) \<Rightarrow> Inr wd | _ \<Rightarrow> Inl ENOENT)"

text \<open>
  \<^verbatim>\<open>fs.pathExists(p)\<close> is \<^verbatim>\<open>fs.access(p)\<close> turned into a boolean (any failure gives
  \<^verbatim>\<open>false\<close>); \<^verbatim>\<open>access\<close> follows symbolic links.
\<close>

definition fsx_pathExists :: "node \<Rightarrow> path \<Rightarrow> bool" where
  "fsx_pathExists fs p = (case stat fs p of Inl e \<Rightarrow> False | Inr x \<Rightarrow> True)"

subsection \<open>Copying\<close>

text \<open>\<open>put es c r\<close> sets the entry named \<open>c\<close> of a directory: removed, replaced in place, or added last.\<close>

fun put :: "(string \<times> node) list \<Rightarrow> string \<Rightarrow> node option \<Rightarrow> (string \<times> node) list" where
  "put [] c None = []"
| "put [] c (Some n) = [(c, n)]"
| "put ((d, m) # es) c r =
     (if d = c then (case r of None \<Rightarrow> es | Some n \<Rightarrow> (c, n) # es)
      else (d, m) # put es c r)"

text \<open>
  \<^verbatim>\<open>fs-extra\<close> refuses to put a directory where a file or link is, and a file or link
  where a directory is.
\<close>

fun conflict :: "node \<Rightarrow> node option \<Rightarrow> error option" where
  "conflict (Dir w es) (Some (File r b)) = Some CannotOverwriteNonDirectory"
| "conflict (Dir w es) (Some (Link a t)) = Some CannotOverwriteNonDirectory"
| "conflict (File r b) (Some (Dir w es)) = Some CannotOverwriteDirectory"
| "conflict (Link a t) (Some (Dir w es)) = Some CannotOverwriteDirectory"
| "conflict s d = None"

text \<open>
  The text of a link as \<^verbatim>\<open>path.resolve\<close> reads it, from the working directory when it
  does not start at the root. Two links are compared through these paths.
\<close>

fun walk_text :: "path \<Rightarrow> seg list \<Rightarrow> path" where
  "walk_text base [] = base"
| "walk_text base (Up # segs) = walk_text (butlast base) segs"
| "walk_text base (Name c # segs) = walk_text (base @ [c]) segs"

definition link_path :: "path \<Rightarrow> bool \<Rightarrow> seg list \<Rightarrow> path" where
  "link_path wd a t = walk_text (if a then [] else wd) t"

text \<open>
  \<open>copy_onto wd pw s d\<close> copies the source entry \<open>s\<close> to a destination whose present
  content is \<open>d\<close> and whose directory is writable iff \<open>pw\<close>; it returns the error, if
  any, and the new content of the destination.
  \<^item> A regular file is copied with its bytes and mode; an existing file or link at the
    destination is removed first (\<^verbatim>\<open>overwrite\<close>).
  \<^item> A symbolic link is created anew with the same text. Where a link is already, the
    two texts are compared first: when one leads into the other (or they are equal) the
    copy is refused, otherwise the old link is removed and the new one made.
  \<^item> A directory is created when missing and gets the mode of the source once all its
    entries are in; an existing directory is merged into. The copies of the entries are
    all started, so an entry that fails does not keep the others from being written;
    the error reported is that of the first entry that failed. (The real copies run
    side by side and the process exits at the first failure; the model takes the run in
    which the copies that were started finish.)
\<close>

fun copy_onto :: "path \<Rightarrow> bool \<Rightarrow> node \<Rightarrow> node option \<Rightarrow> error option \<times> node option"
  and copy_items :: "path \<Rightarrow> bool \<Rightarrow> (string \<times> node) list \<Rightarrow> (string \<times> node) list
                      \<Rightarrow> error option \<times> (string \<times> node) list" where
  "copy_onto wd pw (File r b) d =
     (case d of
        Some (Dir w' es') \<Rightarrow> (Some CannotOverwriteDirectory, d)
      | _ \<Rightarrow> if \<not> pw then (Some EACCES, d)
             else if \<not> r then (Some EACCES, None)
             else (None, Some (File r b)))"
| "copy_onto wd pw (Link a t) d =
     (case d of
        None \<Rightarrow> if \<not> pw then (Some EACCES, None) else (None, Some (Link a t))
      | Some (Dir w' es') \<Rightarrow> (Some CannotOverwriteDirectory, d)
      | Some (File r' b') \<Rightarrow> (Some EEXIST, d)
      | Some (Link a' t') \<Rightarrow>
          if prefix (link_path wd a t) (link_path wd a' t') then (Some CannotCopyToSubdirectory, d)
          else if prefix (link_path wd a' t') (link_path wd a t) then (Some CannotOverwriteLink, d)
          else if \<not> pw then (Some EACCES, d)
          else (None, Some (Link a t)))"
| "copy_onto wd pw (Dir w es) d =
     (case d of
        None \<Rightarrow>
          if \<not> pw then (Some EACCES, None)
          else (case copy_items wd True es [] of
                  (None, es') \<Rightarrow> (None, Some (Dir w es'))
                | (Some e, es') \<Rightarrow> (Some e, Some (Dir True es')))
      | Some (Dir w' es') \<Rightarrow>
          (case copy_items wd w' es es' of (e, es'') \<Rightarrow> (e, Some (Dir w' es'')))
      | Some _ \<Rightarrow> (Some CannotOverwriteNonDirectory, d))"
| "copy_items wd pw [] ds = (None, ds)"
| "copy_items wd pw (e # es) ds =
     (case copy_onto wd pw (snd e) (map_of ds (fst e)) of
        (err, r) \<Rightarrow>
          (case copy_items wd pw es (put ds (fst e) r) of
             (err', ds') \<Rightarrow> (case err of None \<Rightarrow> err' | Some x \<Rightarrow> Some x, ds')))"

text \<open>
  \<open>write_at q f root\<close> applies \<open>f\<close> to the entry at the real path \<open>q\<close>. Directories
  missing on the way are created (\<^verbatim>\<open>mkdirs\<close> of the parent of the destination).
\<close>

fun write_at :: "path \<Rightarrow> (bool \<Rightarrow> node option \<Rightarrow> error option \<times> node option) \<Rightarrow> node
                  \<Rightarrow> error option \<times> node" where
  "write_at [] f n = (case f False (Some n) of (e, Some n') \<Rightarrow> (e, n') | (e, None) \<Rightarrow> (e, n))"
| "write_at [c] f (Dir w es) = (case f w (map_of es c) of (e, r) \<Rightarrow> (e, Dir w (put es c r)))"
| "write_at (c # p) f (Dir w es) =
     (case map_of es c of
        Some m \<Rightarrow> (case write_at p f m of (e, m') \<Rightarrow> (e, Dir w (put es c (Some m'))))
      | None \<Rightarrow>
          if w then (case write_at p f (Dir True []) of (e, m') \<Rightarrow> (e, Dir w (put es c (Some m'))))
          else (Some EACCES, Dir w es))"
| "write_at (c # p) f (File r b) = (Some ENOTDIR, File r b)"
| "write_at (c # p) f (Link a t) = (Some ENOTDIR, Link a t)"

text \<open>
  \<^verbatim>\<open>fs.copy(src, dest)\<close>. Both paths are examined with \<^verbatim>\<open>lstat\<close>: the source must
  exist; a destination that is missing is fine, any other failure is raised. Source and
  destination must not be the same entry, nor a directory and a non-directory; a
  directory is not copied into itself, judged by the two paths as written and by the
  real directories above the destination. Then the source entry is copied onto the
  destination.
\<close>

definition fsx_copy :: "path \<Rightarrow> node \<Rightarrow> path \<Rightarrow> path \<Rightarrow> error option \<times> node" where
  "fsx_copy wd fs src dest =
     (case lstat fs src of
        Inl e \<Rightarrow> (Some e, fs)
      | Inr (rs, s) \<Rightarrow>
          (case resolve max_links fs False True [] (map Name dest) of
             Inl e \<Rightarrow> (Some e, fs)
           | Inr rd \<Rightarrow>
               if rs = rd then (Some SameSourceAndDestination, fs)
               else (case conflict s (entry_at fs rd) of
                       Some e \<Rightarrow> (Some e, fs)
                     | None \<Rightarrow>
                         if is_dir s \<and> (prefix src dest \<or> prefix rs rd)
                         then (Some CannotCopyToSubdirectory, fs)
                         else write_at rd (\<lambda>pw d. copy_onto wd pw s d) fs)))"

text \<open>
  The reference platform of a process whose working directory is \<open>wd\<close>. How \<^verbatim>\<open>chalk\<close>
  decides on colours is left open (\<open>cs\<close>).
\<close>

definition fsx :: "path \<Rightarrow> (string list \<Rightarrow> (string \<times> string) list \<Rightarrow> bool) \<Rightarrow> node platform" where
  "fsx wd cs =
     \<lparr>process_cwd = fsx_cwd wd, pathExists = fsx_pathExists, copy = fsx_copy wd,
      colour_support = cs\<rparr>"

section \<open>Vocabulary of the properties\<close>

text \<open>
  The calls made to \<^verbatim>\<open>fs-extra\<close> during a run, and the lines the routine wrote to
  standard error.
\<close>

fun is_call :: "event \<Rightarrow> bool" where
  "is_call (PathExists t) = True"
| "is_call (Copy s t) = True"
| "is_call ev = False"

fun is_stderr :: "event \<Rightarrow> bool" where
  "is_stderr (Err l e) = True"
| "is_stderr ev = False"

definition library_calls :: "event list \<Rightarrow> event list" where
  "library_calls t = filter is_call t"

definition stderr_lines :: "event list \<Rightarrow> event list" where
  "stderr_lines t = filter is_stderr t"

text \<open>
  \<open>same_entry n x\<close>: the entry \<open>n\<close> found at a place before a run is still what is found
  there afterwards. A regular file keeps its bytes and mode, a link its text; a directory
  is still a directory with the same mode (what it holds is compared place by place).
\<close>

fun same_entry :: "node \<Rightarrow> node option \<Rightarrow> bool" where
  "same_entry (Dir w es) x = (case x of Some (Dir w' es') \<Rightarrow> w' = w | _ \<Rightarrow> False)"
| "same_entry n x = (x = Some n)"

text \<open>
  \<open>skipped en d fs r\<close>: the run with outcome \<open>r\<close>, in the working directory \<open>d\<close>, took
  the skip branch. After the banner and the existence test only the warning was
  printed, the routine returned (exit code 0) and the filesystem is as it was.
\<close>

definition skipped :: "bool \<Rightarrow> path \<Rightarrow> 'fs \<Rightarrow> 'fs outcome \<Rightarrow> bool" where
  "skipped en d fs r \<longleftrightarrow>
     trace r = banner en @ [PathExists (targetDir d)] @ already_exists_warning en \<and>
     exit_code r = 0 \<and> final_fs r = fs"

text \<open>
  \<open>link_leads_somewhere fs dir a t\<close>: the text of a link held by the directory at the
  real path \<open>dir\<close> leads to an existing entry, following further links (one link has
  been followed already).
\<close>

definition link_leads_somewhere :: "node \<Rightarrow> path \<Rightarrow> bool \<Rightarrow> seg list \<Rightarrow> bool" where
  "link_leads_somewhere fs dir a t =
     (case found fs (resolve (max_links - 1) fs True False (if a then [] else dir) t) of
        Inl e \<Rightarrow> False
      | Inr x \<Rightarrow> True)"

subsection \<open>A small installation, for concrete runs\<close>

text \<open>
  The package is installed under \<^verbatim>\<open>/pkg\<close>, with the compiled routine in
  \<^verbatim>\<open>/pkg/dist/src/commands\<close> and the template in \<^verbatim>\<open>/pkg/templates/.claude\<close>; the user
  works in \<^verbatim>\<open>/home/project\<close>. The template holds \<^verbatim>\<open>README.md\<close> and
  \<^verbatim>\<open>skills/foo/SKILL.md\<close>.
\<close>

definition ex_wd :: path where
  "ex_wd = [''home'', ''project'']"

definition ex_process :: process where
  "ex_process =
    \<lparr>dirname = [''pkg'', ''dist'', ''src'', ''commands''], argv = [''init''], environ = []\<rparr>"

definition ex_sys :: "node platform" where
  "ex_sys = fsx ex_wd (\<lambda>a v. True)"

definition ex_template :: node where
  "ex_template =
    Dir True
      [(''README.md'', File True ''# GQLify''),
       (''skills'', Dir True [(''foo'', Dir True [(''SKILL.md'', File True ''name: foo'')])])]"

definition ex_dist :: "string \<times> node" where
  "ex_dist =
    (''dist'', Dir True [(''src'', Dir True [(''commands'', Dir True [(''init.js'', File True ''js'')])])])"

definition ex_pkg :: "node \<Rightarrow> node" where
  "ex_pkg template = Dir True [ex_dist, (''templates'', Dir True [(''.claude'', template)])]"

definition ex_fs :: "node \<Rightarrow> node \<Rightarrow> node" where
  "ex_fs template project = Dir True [(''pkg'', ex_pkg template), (''home'', Dir True [(''project'', project)])]"

text \<open>A project without \<^verbatim>\<open>.claude\<close>, and the same project after a successful run.\<close>

definition ex_fresh :: node where
  "ex_fresh = ex_fs ex_template (Dir True [(''package.json'', File True ''{}'')])"

definition ex_installed :: node where
  "ex_installed = ex_fs ex_template (Dir True [(''package.json'', File True ''{}''), (''.claude'', ex_template)])"


text \<open>The directory above it has been removed as well.\<close>

definition ex_removed_home :: node where
  "ex_removed_home = Dir True [(''pkg'', ex_pkg ex_template)]"

text \<open>A project directory the user may not write to.\<close>

definition ex_readonly :: node where
  "ex_readonly = ex_fs ex_template (Dir False [(''package.json'', File True ''{}'')])"

text \<open>
  Projects where \<^verbatim>\<open>.claude\<close> is a regular file; a link to a directory; a link to
  nothing; a link to a directory that is reached through another link
  (\<^verbatim>\<open>/home/alias\<close> is a link with the text \<^verbatim>\<open>real\<close>).
\<close>

definition ex_file_at_target :: node where
  "ex_file_at_target = ex_fs ex_template (Dir True [(''.claude'', File True ''notes'')])"

definition ex_link_at_target :: node where
  "ex_link_at_target =
     ex_fs ex_template (Dir True [(''.claude'', Link True [Name ''pkg'', Name ''templates'', Name ''.claude''])])"

definition ex_dangling :: node where
  "ex_dangling = ex_fs ex_template (Dir True [(''.claude'', Link True [Name ''home'', Name ''gone''])])"

definition ex_aliased :: node where
  "ex_aliased =
     Dir True
       [(''pkg'', ex_pkg ex_template),
        (''home'', Dir True
           [(''real'', Dir True [(''conf'', Dir True [])]),
            (''alias'', Link False [Name ''real'']),
            (''project'', Dir True [(''.claude'', Link True [Name ''home'', Name ''alias'', Name ''conf''])])])]"

text \<open>
  The template directory is reached through a link: \<^verbatim>\<open>/pkg/templates\<close> is a link to
  \<^verbatim>\<open>/opt/tpl\<close>.
\<close>

definition ex_linked_package :: node where
  "ex_linked_package =
     Dir True
       [(''opt'', Dir True [(''tpl'', Dir True [(''.claude'', ex_template)])]),
        (''pkg'', Dir True [ex_dist, (''templates'', Link True [Name ''opt'', Name ''tpl''])]),
        (''home'', Dir True [(''project'', Dir True [])])]"

text \<open>
  The bundled template is itself a link to nothing: a project before the first run and
  after it.
\<close>

definition ex_link_template :: node where
  "ex_link_template =
     ex_fs (Link True [Name ''opt'', Name ''templates'']) (Dir True [(''package.json'', File True ''{}'')])"

definition ex_link_template_installed :: node where
  "ex_link_template_installed =
     ex_fs (Link True [Name ''opt'', Name ''templates''])
       (Dir True [(''package.json'', File True ''{}''), (''.claude'', Link True [Name ''opt'', Name ''templates''])])"



text \<open>
  A template whose second file the user may not read, what the copy of it leaves
  behind, and installations without template.
\<close>

definition ex_unreadable :: node where
  "ex_unreadable =
     ex_fs (Dir True [(''README.md'', File True ''# GQLify''), (''RULES.md'', File False ''rules'')])
           (Dir True [])"

definition ex_partial :: node where
  "ex_partial =
     ex_fs (Dir True [(''README.md'', File True ''# GQLify''), (''RULES.md'', File False ''rules'')])
           (Dir True [(''.claude'', Dir True [(''README.md'', File True ''# GQLify'')])])"

definition ex_no_template :: node where
  "ex_no_template =
     Dir True
       [(''pkg'', Dir True [ex_dist]),
        (''home'', Dir True [(''project'', Dir True [(''.claude'', Dir True [])])])]"

definition ex_no_template_fresh :: node where
  "ex_no_template_fresh =
     Dir True
       [(''pkg'', Dir True [ex_dist]),
        (''home'', Dir True [(''project'', Dir True [])])]"

section \<open>Properties of the routine, for any platform\<close>

lemma init_uncaught:
  "process_cwd sys fs = Inl e \<Longrightarrow>
   init sys p fs = \<lparr>trace = [Uncaught e], exit_code = 1, final_fs = fs\<rparr>"
  by (simp add: init_def)

lemma init_skip:
  "process_cwd sys fs = Inr d \<Longrightarrow> pathExists sys fs (targetDir d) \<Longrightarrow>
   init sys p fs =
     \<lparr>trace = banner (colours sys p) @ [PathExists (targetDir d)] @ already_exists_warning (colours sys p),
      exit_code = 0, final_fs = fs\<rparr>"
  by (simp add: init_def Let_def)

lemma init_copied:
  "process_cwd sys fs = Inr d \<Longrightarrow> \<not> pathExists sys fs (targetDir d) \<Longrightarrow>
   copy sys fs (templateDir p) (targetDir d) = (None, fs') \<Longrightarrow>
   init sys p fs =
     \<lparr>trace = banner (colours sys p)
                @ [PathExists (targetDir d), copying_line (colours sys p) (templateDir p),
                   Copy (templateDir p) (targetDir d)]
                @ success_report (colours sys p),
      exit_code = 0, final_fs = fs'\<rparr>"
  by (simp add: init_def Let_def)

lemma init_failed:
  "process_cwd sys fs = Inr d \<Longrightarrow> \<not> pathExists sys fs (targetDir d) \<Longrightarrow>
   copy sys fs (templateDir p) (targetDir d) = (Some e, fs') \<Longrightarrow>
   init sys p fs =
     \<lparr>trace = banner (colours sys p)
                @ [PathExists (targetDir d), copying_line (colours sys p) (templateDir p),
                   Copy (templateDir p) (targetDir d)]
                @ error_report (colours sys p) e,
      exit_code = 1, final_fs = fs'\<rparr>"
  by (simp add: init_def Let_def)

lemma init_cases:
  obtains (uncaught) e where "process_cwd sys fs = Inl e"
  | (skip) d where "process_cwd sys fs = Inr d" "pathExists sys fs (targetDir d)"
  | (copied) d fs' where "process_cwd sys fs = Inr d" "\<not> pathExists sys fs (targetDir d)"
      "copy sys fs (templateDir p) (targetDir d) = (None, fs')"
  | (failed) d e fs' where "process_cwd sys fs = Inr d" "\<not> pathExists sys fs (targetDir d)"
      "copy sys fs (templateDir p) (targetDir d) = (Some e, fs')"
proof (cases "process_cwd sys fs")
  case (Inl e)
  then show ?thesis by (rule uncaught)
next
  case (Inr d)
  show ?thesis
  proof (cases "pathExists sys fs (targetDir d)")
    case True
    with Inr show ?thesis by (rule skip)
  next
    case False
    obtain r fs' where c: "copy sys fs (templateDir p) (targetDir d) = (r, fs')"
      by (cases "copy sys fs (templateDir p) (targetDir d)")
    show ?thesis
    proof (cases r)
      case None
      with Inr False c show ?thesis by (auto intro: copied)
    next
      case (Some e)
      with Inr False c show ?thesis by (auto intro: failed)
    qed
  qed
qed

lemma calls_banner: "library_calls (banner en) = []"
  by (simp add: library_calls_def banner_def)

lemma calls_warning: "library_calls (already_exists_warning en) = []"
  by (simp add: library_calls_def already_exists_warning_def)

lemma calls_success_report: "library_calls (success_report en) = []"
  by (simp add: library_calls_def success_report_def success_line_def)

lemma calls_error_report: "library_calls (error_report en e) = []"
  by (simp add: library_calls_def error_report_def)

lemma calls_append: "library_calls (xs @ ys) = library_calls xs @ library_calls ys"
  by (simp add: library_calls_def)

lemma calls_copying_line: "library_calls (copying_line en t # xs) = library_calls xs"
  by (simp add: library_calls_def copying_line_def)

lemma calls_PathExists: "library_calls (PathExists t # xs) = PathExists t # library_calls xs"
  by (simp add: library_calls_def)

lemma calls_Copy: "library_calls (Copy s t # xs) = Copy s t # library_calls xs"
  by (simp add: library_calls_def)

lemma calls_Uncaught: "library_calls (Uncaught e # xs) = library_calls xs"
  by (simp add: library_calls_def)

lemma calls_Nil: "library_calls [] = []"
  by (simp add: library_calls_def)

lemmas calls_simps =
  calls_banner calls_warning calls_success_report calls_error_report calls_append
  calls_copying_line calls_PathExists calls_Copy calls_Uncaught calls_Nil

lemma stderr_banner: "stderr_lines (banner en) = []"
  by (simp add: stderr_lines_def banner_def)

lemma stderr_warning: "stderr_lines (already_exists_warning en) = []"
  by (simp add: stderr_lines_def already_exists_warning_def)

lemma stderr_success_report: "stderr_lines (success_report en) = []"
  by (simp add: stderr_lines_def success_report_def success_line_def)

lemma stderr_error_report: "stderr_lines (error_report en e) = error_report en e"
  by (simp add: stderr_lines_def error_report_def)

lemma stderr_append: "stderr_lines (xs @ ys) = stderr_lines xs @ stderr_lines ys"
  by (simp add: stderr_lines_def)

lemma stderr_copying_line: "stderr_lines (copying_line en t # xs) = stderr_lines xs"
  by (simp add: stderr_lines_def copying_line_def)

lemma stderr_PathExists: "stderr_lines (PathExists t # xs) = stderr_lines xs"
  by (simp add: stderr_lines_def)

lemma stderr_Copy: "stderr_lines (Copy s t # xs) = stderr_lines xs"
  by (simp add: stderr_lines_def)

lemma stderr_Uncaught: "stderr_lines (Uncaught e # xs) = stderr_lines xs"
  by (simp add: stderr_lines_def)

lemma stderr_Nil: "stderr_lines [] = []"
  by (simp add: stderr_lines_def)

lemmas stderr_simps =
  stderr_banner stderr_warning stderr_success_report stderr_error_report stderr_append
  stderr_copying_line stderr_PathExists stderr_Copy stderr_Uncaught stderr_Nil

lemma error_report_nonempty: "error_report en e \<noteq> []"
  by (simp add: error_report_def)

lemma success_line_banner: "success_line en \<notin> set (banner en')"
  by (simp add: success_line_def banner_def chalk_def)

lemma success_line_warning: "success_line en \<notin> set (already_exists_warning en')"
  by (simp add: success_line_def already_exists_warning_def chalk_def)

lemma success_line_error: "success_line en \<notin> set (error_report en' e)"
  by (simp add: success_line_def error_report_def)

lemma success_line_copying: "success_line en \<noteq> copying_line en' t"
  by (simp add: success_line_def copying_line_def chalk_def)

lemma success_line_report: "success_line en \<in> set (success_report en)"
  by (simp add: success_report_def)

lemma success_line_other: "success_line en \<noteq> PathExists t" "success_line en \<noteq> Copy s t"
  "success_line en \<noteq> Uncaught e"
  by (simp_all add: success_line_def)

lemma exit_code_init:
  "exit_code (init sys p fs) =
     (case process_cwd sys fs of
        Inl e \<Rightarrow> 1
      | Inr d \<Rightarrow>
          if \<not> pathExists sys fs (targetDir d) \<and> fst (copy sys fs (templateDir p) (targetDir d)) \<noteq> None
          then 1 else 0)"
  by (cases rule: init_cases[where sys = sys and fs = fs and p = p])
     (simp_all add: init_uncaught init_skip init_copied init_failed)

lemma final_fs_init:
  "final_fs (init sys p fs) =
     (case process_cwd sys fs of
        Inl e \<Rightarrow> fs
      | Inr d \<Rightarrow>
          if pathExists sys fs (targetDir d) then fs
          else snd (copy sys fs (templateDir p) (targetDir d)))"
  by (cases rule: init_cases[where sys = sys and fs = fs and p = p])
     (simp_all add: init_uncaught init_skip init_copied init_failed)

lemma calls_init:
  "library_calls (trace (init sys p fs)) =
     (case process_cwd sys fs of
        Inl e \<Rightarrow> []
      | Inr d \<Rightarrow>
          if pathExists sys fs (targetDir d) then [PathExists (targetDir d)]
          else [PathExists (targetDir d), Copy (templateDir p) (targetDir d)])"
  by (cases rule: init_cases[where sys = sys and fs = fs and p = p])
     (simp_all add: init_uncaught init_skip init_copied init_failed calls_simps)

lemma success_iff:
  "success_line (colours sys p) \<in> set (trace (init sys p fs)) \<longleftrightarrow>
     (\<exists>d. process_cwd sys fs = Inr d \<and> \<not> pathExists sys fs (targetDir d) \<and>
          fst (copy sys fs (templateDir p) (targetDir d)) = None)"
  by (cases rule: init_cases[where sys = sys and fs = fs and p = p])
     (simp_all add: init_uncaught init_skip init_copied init_failed success_line_banner
        success_line_warning success_line_error success_line_report success_line_copying
        success_line_other)

lemma skipped_iff:
  "process_cwd sys fs = Inr d \<Longrightarrow>
   skipped (colours sys p) d fs (init sys p fs) \<longleftrightarrow> pathExists sys fs (targetDir d)"
proof
  assume c: "process_cwd sys fs = Inr d" and "pathExists sys fs (targetDir d)"
  then show "skipped (colours sys p) d fs (init sys p fs)"
    by (simp add: skipped_def init_skip)
next
  assume c: "process_cwd sys fs = Inr d" and sk: "skipped (colours sys p) d fs (init sys p fs)"
  then have "library_calls (trace (init sys p fs)) = [PathExists (targetDir d)]"
    by (simp add: skipped_def calls_simps)
  then show "pathExists sys fs (targetDir d)"
    using c by (simp add: calls_init split: if_splits)
qed

section \<open>Properties of the reference filesystem\<close>


lemma map_of_put_same: "map_of (put es c (Some n)) c = Some n"
  by (induction es c "Some n" rule: put.induct) auto

lemma map_of_put_other: "d \<noteq> c \<Longrightarrow> map_of (put es c r) d = map_of es d"
  by (induction es c r rule: put.induct) (auto split: option.splits)

lemma put_absent: "map_of es c = None \<Longrightarrow> put es c r = (case r of None \<Rightarrow> es | Some n \<Rightarrow> es @ [(c, n)])"
  by (induction es c r rule: put.induct) (auto split: option.splits if_splits)

lemma put_present: "map_of es c = Some m \<Longrightarrow> put es c (Some m) = es"
  by (induction es c "Some m" rule: put.induct) (auto split: if_splits)

lemma map_of_None_iff: "map_of es c = None \<longleftrightarrow> c \<notin> fst ` set es"
  by (simp add: map_of_eq_None_iff)

lemma copy_fresh_aux:
  "(d = None \<longrightarrow> wf s \<longrightarrow> (\<forall>r. copy_onto wd pw s d = (None, r) \<longrightarrow> r = Some s))"
  "(pw' \<longrightarrow> wf_items es \<longrightarrow> distinct (map fst es) \<longrightarrow> fst ` set es \<inter> fst ` set ds = {} \<longrightarrow>
      (\<forall>r. copy_items wd pw' es ds = (None, r) \<longrightarrow> r = ds @ es))"
proof (induction wd pw s d and wd pw' es ds rule: copy_onto_copy_items.induct)
  case (1 wd pw r b d)
  then show ?case by (auto split: if_splits)
next
  case (2 wd pw a t d)
  then show ?case by (auto split: if_splits)
next
  case (3 wd pw w es d)
  then show ?case by (auto split: if_splits prod.splits option.splits)
next
  case (4 wd pw ds)
  then show ?case by simp
next
  case (5 wd pw e es ds)
  show ?case
  proof (intro impI allI)
    fix r
    assume pw: pw and wfi: "wf_items (e # es)" and dist: "distinct (map fst (e # es))"
      and disj: "fst ` set (e # es) \<inter> fst ` set ds = {}"
      and res: "copy_items wd pw (e # es) ds = (None, r)"
    have none: "map_of ds (fst e) = None"
      using disj by (auto simp: map_of_eq_None_iff)
    obtain x y where c1: "copy_onto wd pw (snd e) (map_of ds (fst e)) = (x, y)"
      by (cases "copy_onto wd pw (snd e) (map_of ds (fst e))")
    obtain x' r' where c2: "copy_items wd pw es (put ds (fst e) y) = (x', r')"
      by (cases "copy_items wd pw es (put ds (fst e) y)")
    from res c1 c2 have x: "x = None" and x': "x' = None" and rr: "r' = r"
      by (auto split: option.splits)
    from 5(1) none wfi c1 x have y: "y = Some (snd e)" by auto
    have p: "put ds (fst e) y = ds @ [e]"
      using none y by (simp add: put_absent)
    have "r = (ds @ [e]) @ es"
    proof -
      have "fst ` set es \<inter> fst ` set (ds @ [e]) = {}"
        using dist disj by auto
      with 5(2)[OF c1[symmetric]] pw wfi dist c2 x' rr p show ?thesis
        by auto
    qed
    then show "r = ds @ e # es" by simp
  qed
qed

lemma copy_fresh: "wf s \<Longrightarrow> copy_onto wd pw s None = (None, r) \<Longrightarrow> r = Some s"
  using copy_fresh_aux(1)[of None s wd pw] by blast



lemma same_entry_refl: "same_entry n (Some n)"
  by (cases n) auto

lemma entry_at_append:
  "entry_at n (p @ q) = (case entry_at n p of None \<Rightarrow> None | Some m \<Rightarrow> entry_at m q)"
  by (induction n p rule: entry_at.induct) (auto split: option.splits)

lemma wf_items_map_of: "wf_items es \<Longrightarrow> map_of es c = Some m \<Longrightarrow> wf m"
  by (induction es) (auto split: if_splits)

lemma wf_entry_at: "wf n \<Longrightarrow> entry_at n p = Some m \<Longrightarrow> wf m"
  by (induction n p rule: entry_at.induct) (auto split: option.splits dest: wf_items_map_of)

lemma copy_onto_success_Some: "copy_onto wd pw s d = (None, r) \<Longrightarrow> r \<noteq> None"
  by (cases s; cases d) (auto split: if_splits node.splits prod.splits option.splits)

lemma write_at_copy_success:
  "write_at dest (\<lambda>pw d. copy_onto wd pw s d) fs = (None, fs') \<Longrightarrow> dest \<noteq> [] \<Longrightarrow>
   \<exists>pw. copy_onto wd pw s (entry_at fs dest) = (None, entry_at fs' dest)"
proof (induction dest "\<lambda>pw d. copy_onto wd pw s d" fs arbitrary: fs' rule: write_at.induct)
  case (1 n)
  then show ?case by simp
next
  case (2 c w es)
  obtain r where r: "copy_onto wd w s (map_of es c) = (None, r)" and fs': "fs' = Dir w (put es c r)"
    using 2 by (auto split: prod.splits)
  from copy_onto_success_Some[OF r] obtain n where n: "r = Some n"
    by (cases r) auto
  have "entry_at fs' [c] = r"
    using fs' n by (simp add: map_of_put_same)
  moreover have "entry_at (Dir w es) [c] = map_of es c"
    by (simp split: option.splits)
  ultimately show ?case using r by auto
next
  case (3 c v va w es)
  show ?case
  proof (cases "map_of es c")
    case None
    with 3(3) have w: w by (auto split: if_splits)
    obtain m' where wr: "write_at (v # va) (\<lambda>pw d. copy_onto wd pw s d) (Dir True []) = (None, m')"
      and fs': "fs' = Dir w (put es c (Some m'))"
      using 3(3) None w by (auto split: prod.splits)
    from 3(1)[OF None w wr] obtain pw where
      "copy_onto wd pw s (entry_at (Dir True []) (v # va)) = (None, entry_at m' (v # va))" by auto
    then show ?thesis using None fs' by (auto simp: map_of_put_same)
  next
    case (Some m)
    obtain m' where wr: "write_at (v # va) (\<lambda>pw d. copy_onto wd pw s d) m = (None, m')"
      and fs': "fs' = Dir w (put es c (Some m'))"
      using 3(3) Some by (auto split: prod.splits)
    from 3(2)[OF Some wr] obtain pw where
      "copy_onto wd pw s (entry_at m (v # va)) = (None, entry_at m' (v # va))" by auto
    then show ?thesis using Some fs' by (auto simp: map_of_put_same)
  qed
next
  case (4 c p r b)
  then show ?case by simp
next
  case (5 c p a t)
  then show ?case by simp
qed

lemma write_at_frame:
  "write_at dest f fs = (e, fs') \<Longrightarrow> \<not> prefix dest q \<Longrightarrow> entry_at fs q = Some n \<Longrightarrow>
   same_entry n (entry_at fs' q)"
proof (induction dest f fs arbitrary: fs' q n rule: write_at.induct)
  case (1 f n)
  then show ?case by simp
next
  case (2 c f w es)
  obtain r where fs': "fs' = Dir w (put es c r)"
    using 2 by (auto split: prod.splits)
  show ?case
  proof (cases q)
    case Nil
    with 2 fs' show ?thesis by auto
  next
    case (Cons c' q')
    with 2(2) have "c' \<noteq> c" by auto
    with 2(3) Cons fs' show ?thesis
      by (auto simp: map_of_put_other same_entry_refl split: option.splits)
  qed
next
  case (3 c v va f w es)
  show ?case
  proof (cases q)
    case Nil
    with 3(3,5) show ?thesis by (auto split: prod.splits option.splits if_splits)
  next
    case (Cons c' q')
    show ?thesis
    proof (cases "c' = c")
      case False
      with 3(3,5) Cons show ?thesis
        by (auto simp: map_of_put_other same_entry_refl split: prod.splits option.splits if_splits)
    next
      case True
      with 3(5) Cons obtain m where m: "map_of es c = Some m" and lq: "entry_at m q' = Some n"
        by (auto split: option.splits)
      obtain m' where wr: "write_at (v # va) f m = (e, m')"
        and fs': "fs' = Dir w (put es c (Some m'))"
        using 3(3) m by (auto split: prod.splits)
      have "\<not> prefix (v # va) q'" using 3(4) Cons True by simp
      from 3(2)[OF m wr this lq] show ?thesis
        using fs' Cons True by (simp add: map_of_put_same)
    qed
  qed
next
  case (4 c p f r b)
  then show ?case by (auto simp: same_entry_refl)
next
  case (5 c p f a t)
  then show ?case by (auto simp: same_entry_refl)
qed

lemma write_at_apart:
  "write_at dest f fs = (e, fs') \<Longrightarrow> \<not> prefix dest q \<Longrightarrow> \<not> prefix q dest \<Longrightarrow>
   entry_at fs' q = entry_at fs q"
proof (induction dest f fs arbitrary: fs' q rule: write_at.induct)
  case (1 f n)
  then show ?case by simp
next
  case (2 c f w es)
  obtain r where fs': "fs' = Dir w (put es c r)"
    using 2 by (auto split: prod.splits)
  from 2(2,3) obtain c' q' where q: "q = c' # q'" and ne: "c' \<noteq> c"
    by (cases q) auto
  show ?case using fs' q ne by (simp add: map_of_put_other)
next
  case (3 c v va f w es)
  from 3(5) obtain c' q' where q: "q = c' # q'"
    by (cases q) auto
  show ?case
  proof (cases "c' = c")
    case False
    with 3(3) q show ?thesis
      by (auto simp: map_of_put_other split: prod.splits option.splits if_splits)
  next
    case True
    have np: "\<not> prefix (v # va) q'" and nq: "\<not> prefix q' (v # va)"
      using 3(4,5) q True by simp_all
    show ?thesis
    proof (cases "map_of es c")
      case (Some m)
      obtain m' where wr: "write_at (v # va) f m = (e, m')"
        and fs': "fs' = Dir w (put es c (Some m'))"
        using 3(3) Some by (auto split: prod.splits)
      from 3(2)[OF Some wr np nq] show ?thesis
        using fs' q True Some by (simp add: map_of_put_same)
    next
      case None
      show ?thesis
      proof (cases w)
        case False
        with 3(3) None show ?thesis by simp
      next
        case True
        obtain m' where wr: "write_at (v # va) f (Dir True []) = (e, m')"
          and fs': "fs' = Dir w (put es c (Some m'))"
          using 3(3) None True by (auto split: prod.splits)
        have "entry_at (Dir True []) q' = None"
          using nq by (cases q') auto
        with 3(1)[OF None True wr np nq] show ?thesis
          using fs' q \<open>c' = c\<close> None by (simp add: map_of_put_same)
      qed
    qed
  qed
next
  case (4 c p f r b)
  then show ?case by auto
next
  case (5 c p f a t)
  then show ?case by auto
qed


subsection \<open>Resolving paths\<close>

lemma entry_at_snoc:
  "entry_at root (p @ [c]) = (case entry_at root p of Some (Dir w es) \<Rightarrow> map_of es c | _ \<Rightarrow> None)"
  by (simp add: entry_at_append split: option.splits node.splits)

lemma entry_at_above:
  "entry_at root (p @ q) = Some n \<Longrightarrow> q \<noteq> [] \<Longrightarrow> \<exists>w es. entry_at root p = Some (Dir w es)"
proof -
  assume a: "entry_at root (p @ q) = Some n" and q: "q \<noteq> []"
  then obtain m where m: "entry_at root p = Some m" and "entry_at m q = Some n"
    by (auto simp: entry_at_append split: option.splits)
  with q show ?thesis by (cases q; cases m) auto
qed

lemma resolve_dirs:
  "entry_at root (cur @ q) = Some (Dir w es) \<Longrightarrow>
   resolve k root f mk cur (map Name q @ segs) = resolve k root f mk (cur @ q) segs"
proof (induction q arbitrary: cur)
  case Nil
  then show ?case by simp
next
  case (Cons c q)
  have e: "entry_at root ((cur @ [c]) @ q) = Some (Dir w es)"
    using Cons.prems by simp
  then obtain w' es' where d: "entry_at root (cur @ [c]) = Some (Dir w' es')"
    using entry_at_above[of root "cur @ [c]" q] by (cases q) auto
  then obtain w0 es0 where c0: "entry_at root cur = Some (Dir w0 es0)"
    and m: "map_of es0 c = Some (Dir w' es')"
    by (auto simp: entry_at_snoc split: option.splits node.splits)
  have "resolve k root f mk cur (map Name (c # q) @ segs)
          = resolve k root f mk (cur @ [c]) (map Name q @ segs)"
    using c0 m by simp
  also have "\<dots> = resolve k root f mk ((cur @ [c]) @ q) segs"
    using e by (rule Cons.IH)
  finally show ?case by simp
qed

lemma resolve_to_dir:
  "entry_at fs d = Some (Dir w es) \<Longrightarrow>
   resolve k fs f mk [] (map Name d @ segs) = resolve k fs f mk d segs"
  using resolve_dirs[of fs "[]" d w es k f mk segs] by simp

lemma resolve_slot_nofollow:
  "entry_at fs d = Some (Dir w es) \<Longrightarrow>
   resolve k fs False mk [] (map Name d @ [Name c]) = Inr (d @ [c])"
  by (simp add: resolve_to_dir split: option.splits node.splits)

lemma resolve_slot_nolink:
  "entry_at fs d = Some (Dir w es) \<Longrightarrow> \<forall>a t. map_of es c \<noteq> Some (Link a t) \<Longrightarrow>
   resolve k fs f mk [] (map Name d @ [Name c]) = Inr (d @ [c])"
  by (simp add: resolve_to_dir split: option.splits node.splits)

lemma resolve_slot_link:
  "entry_at fs d = Some (Dir w es) \<Longrightarrow> map_of es c = Some (Link a t) \<Longrightarrow>
   resolve (Suc j) fs True mk [] (map Name d @ [Name c]) = resolve j fs True mk (if a then [] else d) t"
  by (simp add: resolve_to_dir)

lemma lstat_entry: "lstat fs p = Inr (q, n) \<Longrightarrow> entry_at fs q = Some n"
  by (auto simp: lstat_def found_def split: sum.splits option.splits)

lemma lstat_slot:
  "entry_at fs d = Some (Dir w es) \<Longrightarrow>
   lstat fs (d @ [c]) = (case map_of es c of None \<Rightarrow> Inl ENOENT | Some n \<Rightarrow> Inr (d @ [c], n))"
  by (simp add: lstat_def found_def resolve_slot_nofollow entry_at_snoc split: option.splits)

lemma dest_slot:
  "entry_at fs d = Some (Dir w es) \<Longrightarrow>
   resolve max_links fs False True [] (map Name d @ [Name c]) = Inr (d @ [c])"
  by (simp add: resolve_slot_nofollow)

lemma max_links_Suc: "max_links = Suc (max_links - 1)"
  by (simp add: max_links_def)

lemma exists_slot:
  assumes "entry_at fs d = Some (Dir w es)"
  shows "fsx_pathExists fs (d @ [c]) =
           (case map_of es c of
              None \<Rightarrow> False
            | Some (Link a t) \<Rightarrow> link_leads_somewhere fs d a t
            | Some n \<Rightarrow> True)"
proof (cases "\<exists>a t. map_of es c = Some (Link a t)")
  case True
  then obtain a t where l: "map_of es c = Some (Link a t)" by auto
  have "resolve (Suc (max_links - 1)) fs True False [] (map Name d @ [Name c])
          = resolve (max_links - 1) fs True False (if a then [] else d) t"
    using assms l by (rule resolve_slot_link)
  then have "resolve max_links fs True False [] (map Name d @ [Name c])
          = resolve (max_links - 1) fs True False (if a then [] else d) t"
    using max_links_Suc by simp
  then show ?thesis
    using l by (simp add: fsx_pathExists_def stat_def link_leads_somewhere_def)
next
  case False
  then have "resolve max_links fs True False [] (map Name d @ [Name c]) = Inr (d @ [c])"
    using assms by (simp add: resolve_slot_nolink)
  then show ?thesis
    using False assms
    by (simp add: fsx_pathExists_def stat_def found_def entry_at_snoc
        split: option.splits node.splits)
qed

subsection \<open>The platform calls on the reference filesystem\<close>

lemma targetDir_nonempty: "targetDir d \<noteq> []"
  by (simp add: targetDir_def path_join_def)

lemma targetDir_snoc: "targetDir d = d @ [''.claude'']"
  by (simp add: targetDir_def path_join_def)

lemma fsx_simps: "process_cwd (fsx wd cs) = fsx_cwd wd" "pathExists (fsx wd cs) = fsx_pathExists"
  "copy (fsx wd cs) = fsx_copy wd" "colour_support (fsx wd cs) = cs"
  by (simp_all add: fsx_def)

lemma fsx_cwd_Inr: "fsx_cwd wd fs = Inr d \<Longrightarrow> d = wd \<and> (\<exists>w es. entry_at fs wd = Some (Dir w es))"
  by (auto simp: fsx_cwd_def split: option.splits node.splits)

lemma fsx_cwd_dir: "entry_at fs wd = Some (Dir w es) \<Longrightarrow> fsx_cwd wd fs = Inr wd"
  by (simp add: fsx_cwd_def)

lemma not_exists_slot:
  "entry_at fs d = Some (Dir w es) \<Longrightarrow> \<not> fsx_pathExists fs (d @ [c]) \<Longrightarrow>
   entry_at fs (d @ [c]) = None \<or>
   (\<exists>a t. entry_at fs (d @ [c]) = Some (Link a t) \<and> \<not> link_leads_somewhere fs d a t)"
  by (auto simp: exists_slot entry_at_snoc split: option.splits node.splits)

lemma entry_at_below_absent: "entry_at fs p = None \<Longrightarrow> entry_at fs (p @ q) = None"
  by (simp add: entry_at_append)


lemma copy_onto_kind:
  "copy_onto wd pw s d = (None, r) \<Longrightarrow>
   (case s of Dir w es \<Rightarrow> \<exists>w' es'. r = Some (Dir w' es') | _ \<Rightarrow> r = Some s)"
  by (cases s; cases d) (auto split: if_splits node.splits prod.splits option.splits)

lemma copy_onto_readonly:
  "\<forall>w es. d \<noteq> Some (Dir w es) \<Longrightarrow> \<exists>e. copy_onto wd False s d = (Some e, d)"
  by (cases s; cases d) (auto split: node.splits)

lemma write_at_Cons:
  "p \<noteq> [] \<Longrightarrow>
   write_at (c # p) f (Dir w es) =
     (case map_of es c of
        Some m \<Rightarrow> (case write_at p f m of (e, m') \<Rightarrow> (e, Dir w (put es c (Some m'))))
      | None \<Rightarrow>
          if w then (case write_at p f (Dir True []) of (e, m') \<Rightarrow> (e, Dir w (put es c (Some m'))))
          else (Some EACCES, Dir w es))"
proof (cases p)
  case Nil
  assume "p \<noteq> []"
  with Nil show ?thesis by simp
next
  case (Cons v va)
  show ?thesis unfolding Cons by simp
qed

lemma put_unchanged: "put es c (map_of es c) = es"
  by (cases "map_of es c") (simp_all add: put_absent put_present)

lemma write_at_in_dir:
  "entry_at fs par = Some (Dir w es) \<Longrightarrow> f w (map_of es c) = (e, map_of es c) \<Longrightarrow>
   write_at (par @ [c]) f fs = (e, fs)"
proof (induction par arbitrary: fs)
  case Nil
  then show ?case by (simp add: put_unchanged)
next
  case (Cons a par)
  from Cons.prems(1) obtain w0 es0 m where fs: "fs = Dir w0 es0" and m: "map_of es0 a = Some m"
    and l: "entry_at m par = Some (Dir w es)"
    by (cases fs) (auto split: option.splits)
  from Cons.IH[OF l Cons.prems(2)] show ?case
    using fs m by (simp add: write_at_Cons put_present)
qed

text \<open>The copy onto a place in an existing directory, the case of the routine.\<close>

lemma fsx_copy_slot:
  assumes "entry_at fs d = Some (Dir w es)"
  shows "fsx_copy wd fs src (d @ [c]) =
     (case lstat fs src of
        Inl e \<Rightarrow> (Some e, fs)
      | Inr (rs, s) \<Rightarrow>
          if rs = d @ [c] then (Some SameSourceAndDestination, fs)
          else (case conflict s (entry_at fs (d @ [c])) of
                  Some e \<Rightarrow> (Some e, fs)
                | None \<Rightarrow>
                    if is_dir s \<and> (prefix src (d @ [c]) \<or> prefix rs (d @ [c]))
                    then (Some CannotCopyToSubdirectory, fs)
                    else write_at (d @ [c]) (\<lambda>pw x. copy_onto wd pw s x) fs))"
  by (simp add: fsx_copy_def dest_slot[OF assms] split: sum.splits prod.splits)

lemma fsx_copy_changes:
  assumes "entry_at fs d = Some (Dir w es)" and "fsx_copy wd fs src (d @ [c]) = (e, fs')"
  shows "fs' = fs \<or> (\<exists>s. write_at (d @ [c]) (\<lambda>pw x. copy_onto wd pw s x) fs = (e, fs'))"
  using assms(2) unfolding fsx_copy_slot[OF assms(1)]
  by (auto split: sum.splits prod.splits if_splits option.splits)

lemma fsx_copy_frame:
  assumes "entry_at fs d = Some (Dir w es)" and "fsx_copy wd fs src (d @ [c]) = (e, fs')"
    and "\<not> prefix (d @ [c]) q" and "entry_at fs q = Some n"
  shows "same_entry n (entry_at fs' q)"
  using fsx_copy_changes[OF assms(1,2)]
proof
  assume "fs' = fs"
  then show ?thesis using assms(4) by (simp add: same_entry_refl)
next
  assume "\<exists>s. write_at (d @ [c]) (\<lambda>pw x. copy_onto wd pw s x) fs = (e, fs')"
  then obtain s where "write_at (d @ [c]) (\<lambda>pw x. copy_onto wd pw s x) fs = (e, fs')" ..
  then show ?thesis using assms(3,4) by (rule write_at_frame)
qed

lemma fsx_copy_apart:
  assumes "entry_at fs d = Some (Dir w es)" and "fsx_copy wd fs src (d @ [c]) = (e, fs')"
    and "\<not> prefix (d @ [c]) q" and "\<not> prefix q (d @ [c])"
  shows "entry_at fs' q = entry_at fs q"
  using fsx_copy_changes[OF assms(1,2)]
proof
  assume "fs' = fs"
  then show ?thesis by simp
next
  assume "\<exists>s. write_at (d @ [c]) (\<lambda>pw x. copy_onto wd pw s x) fs = (e, fs')"
  then obtain s where "write_at (d @ [c]) (\<lambda>pw x. copy_onto wd pw s x) fs = (e, fs')" ..
  then show ?thesis using assms(3,4) by (rule write_at_apart)
qed

lemma fsx_copy_success:
  assumes dir: "entry_at fs d = Some (Dir w es)" and c: "fsx_copy wd fs src (d @ [c]) = (None, fs')"
  shows "\<exists>rs s pw. lstat fs src = Inr (rs, s) \<and>
           copy_onto wd pw s (entry_at fs (d @ [c])) = (None, entry_at fs' (d @ [c])) \<and>
           \<not> prefix rs (d @ [c])"
proof -
  from c obtain rs s where l: "lstat fs src = Inr (rs, s)" and ne: "rs \<noteq> d @ [c]"
    and sub: "\<not> (is_dir s \<and> prefix rs (d @ [c]))"
    and wr: "write_at (d @ [c]) (\<lambda>pw x. copy_onto wd pw s x) fs = (None, fs')"
    unfolding fsx_copy_slot[OF dir]
    by (auto split: sum.splits prod.splits if_splits option.splits)
  from write_at_copy_success[OF wr] obtain pw
    where k: "copy_onto wd pw s (entry_at fs (d @ [c])) = (None, entry_at fs' (d @ [c]))" by auto
  have "\<not> prefix rs (d @ [c])"
  proof
    assume "prefix rs (d @ [c])"
    with ne have "prefix rs d" by (simp add: prefix_snoc)
    then obtain r where d: "d = rs @ r" by (auto elim: prefixE)
    from lstat_entry[OF l] have s: "entry_at fs rs = Some s" .
    have "is_dir s"
    proof (cases "r = []")
      case True
      with d dir s show ?thesis by simp
    next
      case False
      from entry_at_above[of fs rs r] dir d False s show ?thesis by auto
    qed
    with sub \<open>prefix rs (d @ [c])\<close> show False by simp
  qed
  with l k show ?thesis by blast
qed

lemma fsx_copy_readonly:
  assumes "entry_at fs d = Some (Dir False es)" and "\<not> fsx_pathExists fs (d @ [c])"
  shows "\<exists>e. fsx_copy wd fs src (d @ [c]) = (Some e, fs)"
proof -
  have l: "entry_at fs (d @ [c]) = map_of es c"
    using assms(1) by (simp add: entry_at_snoc)
  from not_exists_slot[OF assms] have nd: "\<forall>w es'. map_of es c \<noteq> Some (Dir w es')"
    using l by auto
  show ?thesis
  proof (cases "\<exists>s. fsx_copy wd fs src (d @ [c]) = write_at (d @ [c]) (\<lambda>pw x. copy_onto wd pw s x) fs")
    case True
    then obtain s where s: "fsx_copy wd fs src (d @ [c]) = write_at (d @ [c]) (\<lambda>pw x. copy_onto wd pw s x) fs"
      by auto
    from copy_onto_readonly[OF nd, of wd s] obtain e where
      "copy_onto wd False s (map_of es c) = (Some e, map_of es c)" by auto
    from write_at_in_dir[OF assms(1), of "\<lambda>pw x. copy_onto wd pw s x" c, OF this]
    show ?thesis using s by auto
  next
    case False
    then show ?thesis
      unfolding fsx_copy_slot[OF assms(1)]
      by (auto split: sum.splits prod.splits option.splits if_splits)
  qed
qed


subsection \<open>What a successful copy installs\<close>

lemma fsx_copy_installs:
  assumes dir: "entry_at fs d = Some (Dir w es)" and wf: "wf fs"
    and none: "entry_at fs (d @ [c]) = None"
    and c: "fsx_copy wd fs src (d @ [c]) = (None, fs')"
  shows "\<exists>rs s. lstat fs src = Inr (rs, s) \<and> entry_at fs' (d @ [c]) = Some s \<and>
           entry_at fs' rs = Some s"
proof -
  from fsx_copy_success[OF dir c] obtain rs s pw where l: "lstat fs src = Inr (rs, s)"
    and k: "copy_onto wd pw s (entry_at fs (d @ [c])) = (None, entry_at fs' (d @ [c]))"
    and np: "\<not> prefix rs (d @ [c])" by blast
  from lstat_entry[OF l] have s: "entry_at fs rs = Some s" .
  from wf_entry_at[OF wf s] have "wf s" .
  from copy_fresh[OF this, of wd pw "entry_at fs' (d @ [c])"] k none
  have t: "entry_at fs' (d @ [c]) = Some s" by simp
  have "\<not> prefix (d @ [c]) rs"
  proof
    assume "prefix (d @ [c]) rs"
    then obtain q where "rs = (d @ [c]) @ q" by (auto elim: prefixE)
    with entry_at_below_absent[OF none, of q] s show False by simp
  qed
  from fsx_copy_apart[OF dir c this np] s have "entry_at fs' rs = Some s" by simp
  with l t show ?thesis by blast
qed

lemma fsx_copy_no_source:
  "entry_at fs d = Some (Dir w es) \<Longrightarrow> lstat fs src = Inl e \<Longrightarrow>
   fsx_copy wd fs src (d @ [c]) = (Some e, fs)"
  by (simp add: fsx_copy_slot)

subsection \<open>The text of the lines\<close>

lemma success_literal:
  "Log [chalk en Green (NL # '' Successfully created .claude directory!'' @ [NL])] = success_line en"
  by (simp add: success_line_def)

lemma error_report_literal:
  "error_report en e =
     [Err [chalk en Red (NL # '' Error initializing workflow:'')] (Some e),
      Err [chalk en Yellow (NL # '' Troubleshooting:'')] None,
      Err [chalk en Gray (''    Ensure you have write permissions in this directory'')] None,
      Err [chalk en Gray (''    Check that GQLify is properly installed'')] None,
      Err [chalk en Gray (''    Try running with elevated permissions if needed'' @ [NL])] None]"
  by (simp add: error_report_def)

lemma warning_literal:
  "already_exists_warning en =
     [Log [chalk en Yellow (''  .claude directory already exists. Skipping initialization.'')],
      Log [chalk en Gray (''   To reinstall, remove the existing .claude directory first.'')]]"
  by (simp add: already_exists_warning_def)

subsection \<open>The existence test of the routine on the reference filesystem\<close>

lemma entry_cwd:
  assumes "entry_at fs (targetDir wd) = Some n"
  shows "\<exists>w es. entry_at fs wd = Some (Dir w es) \<and> map_of es ''.claude'' = Some n \<and>
           process_cwd (fsx wd cs) fs = Inr wd"
proof -
  from assms have a: "entry_at fs (wd @ [''.claude'']) = Some n" by (simp add: targetDir_snoc)
  from entry_at_above[OF a] obtain w es where dir: "entry_at fs wd = Some (Dir w es)" by auto
  with a have "map_of es ''.claude'' = Some n" by (simp add: entry_at_snoc)
  with dir fsx_cwd_dir[OF dir] show ?thesis by (simp add: fsx_simps)
qed

lemma skipped_fsx:
  "process_cwd (fsx wd cs) fs = Inr wd \<Longrightarrow>
   skipped (cs (argv p) (environ p)) wd fs (init (fsx wd cs) p fs) \<longleftrightarrow>
     fsx_pathExists fs (wd @ [''.claude''])"
  using skipped_iff[of "fsx wd cs" fs wd p] by (simp add: fsx_simps colours_def targetDir_snoc)

subsection \<open>The two paths\<close>

lemma templateDir_butlast:
  "templateDir p = butlast (butlast (butlast (dirname p))) @ [''templates'', ''.claude'']"
  by (simp add: templateDir_def)

lemma templateDir_argv_environ: "templateDir (p\<lparr>argv := a, environ := v\<rparr>) = templateDir p"
  by (simp add: templateDir_def)

lemma init_argv_environ:
  "library_calls (trace (init sys (p\<lparr>argv := a, environ := v\<rparr>) fs)) = library_calls (trace (init sys p fs))"
  "exit_code (init sys (p\<lparr>argv := a, environ := v\<rparr>) fs) = exit_code (init sys p fs)"
  "final_fs (init sys (p\<lparr>argv := a, environ := v\<rparr>) fs) = final_fs (init sys p fs)"
  unfolding calls_init exit_code_init final_fs_init templateDir_argv_environ by (rule refl)+

lemma init_fsx_final:
  obtains (same) "final_fs (init (fsx wd cs) q g) = g"
  | (copy) w es e where "entry_at g wd = Some (Dir w es)"
      "fsx_copy wd g (templateDir q) (wd @ [''.claude'']) = (e, final_fs (init (fsx wd cs) q g))"
      "\<not> fsx_pathExists g (wd @ [''.claude''])"
proof (cases rule: init_cases[where sys = "fsx wd cs" and fs = g and p = q])
  case (uncaught e)
  then show ?thesis by (intro same) (simp add: init_uncaught)
next
  case (skip d)
  then show ?thesis by (intro same) (simp add: init_skip)
next
  case (copied d fs')
  from fsx_cwd_Inr[of wd g d] copied(1) obtain w es where d: "d = wd"
    and dir: "entry_at g wd = Some (Dir w es)" by (auto simp: fsx_simps)
  have "final_fs (init (fsx wd cs) q g) = fs'" using copied by (simp add: init_copied)
  with copied(3) d have "fsx_copy wd g (templateDir q) (wd @ [''.claude''])
      = (None, final_fs (init (fsx wd cs) q g))" by (simp add: fsx_simps targetDir_snoc)
  moreover have "\<not> fsx_pathExists g (wd @ [''.claude''])"
    using copied(2) d by (simp add: fsx_simps targetDir_snoc)
  ultimately show ?thesis using dir by (intro copy)
next
  case (failed d e fs')
  from fsx_cwd_Inr[of wd g d] failed(1) obtain w es where d: "d = wd"
    and dir: "entry_at g wd = Some (Dir w es)" by (auto simp: fsx_simps)
  have "final_fs (init (fsx wd cs) q g) = fs'" using failed by (simp add: init_failed)
  with failed(3) d have "fsx_copy wd g (templateDir q) (wd @ [''.claude''])
      = (Some e, final_fs (init (fsx wd cs) q g))" by (simp add: fsx_simps targetDir_snoc)
  moreover have "\<not> fsx_pathExists g (wd @ [''.claude''])"
    using failed(2) d by (simp add: fsx_simps targetDir_snoc)
  ultimately show ?thesis using dir by (intro copy)
qed


section \<open>The claims\<close>

subsection \<open>C1: a successful run installs the template tree\<close>

text \<open>
  Claim C1. After a run in a directory that holds no entry \<^verbatim>\<open>.claude\<close>, ended with exit
  code 0, the directory holds \<^verbatim>\<open>.claude\<close> and what is found there is the entry found at
  the template path of the package at the start of the run, as a whole: every path below
  \<^verbatim>\<open>./.claude\<close> leads to what the same path leads to below the template. The template is
  still in its place, and the line announcing the creation of the directory has been
  printed.
\<close>

theorem init_installs_template:
  assumes "wf fs" and "entry_at fs (targetDir wd) = None"
    and "exit_code (init (fsx wd cs) p fs) = 0"
  shows "\<exists>rs s. lstat fs (templateDir p) = Inr (rs, s) \<and>
           entry_at (final_fs (init (fsx wd cs) p fs)) (wd @ [''.claude'']) = Some s \<and>
           (\<forall>rel. entry_at (final_fs (init (fsx wd cs) p fs)) (wd @ [''.claude''] @ rel) = entry_at s rel) \<and>
           entry_at (final_fs (init (fsx wd cs) p fs)) rs = Some s \<and>
           Log [chalk (cs (argv p) (environ p)) Green
                  (NL # '' Successfully created .claude directory!'' @ [NL])]
             \<in> set (trace (init (fsx wd cs) p fs))"
proof (cases rule: init_cases[where sys = "fsx wd cs" and fs = fs and p = p])
  case (uncaught e)
  with assms(3) show ?thesis by (simp add: init_uncaught)
next
  case (skip d)
  from fsx_cwd_Inr[of wd fs d] skip(1) obtain w es where d: "d = wd"
    and dir: "entry_at fs wd = Some (Dir w es)" by (auto simp: fsx_simps)
  from exists_slot[OF dir, of "''.claude''"] assms(2) skip(2) d
  show ?thesis by (simp add: fsx_simps targetDir_snoc entry_at_snoc dir)
next
  case (failed d e fs')
  with assms(3) show ?thesis by (simp add: init_failed)
next
  case (copied d fs')
  from fsx_cwd_Inr[of wd fs d] copied(1) obtain w es where d: "d = wd"
    and dir: "entry_at fs wd = Some (Dir w es)" by (auto simp: fsx_simps)
  have c: "fsx_copy wd fs (templateDir p) (wd @ [''.claude'']) = (None, fs')"
    using copied(3) d by (simp add: fsx_simps targetDir_snoc)
  have none: "entry_at fs (wd @ [''.claude'']) = None"
    using assms(2) by (simp add: targetDir_snoc)
  from fsx_copy_installs[OF dir assms(1) none c] obtain rs s
    where l: "lstat fs (templateDir p) = Inr (rs, s)"
      and t: "entry_at fs' (wd @ [''.claude'']) = Some s"
      and r: "entry_at fs' rs = Some s" by blast
  have i: "init (fsx wd cs) p fs =
     \<lparr>trace = banner (colours (fsx wd cs) p)
                @ [PathExists (targetDir d), copying_line (colours (fsx wd cs) p) (templateDir p),
                   Copy (templateDir p) (targetDir d)]
                @ success_report (colours (fsx wd cs) p),
      exit_code = 0, final_fs = fs'\<rparr>"
    using copied by (rule init_copied)
  have f: "final_fs (init (fsx wd cs) p fs) = fs'" unfolding i by simp
  have b: "\<forall>rel. entry_at fs' (wd @ [''.claude''] @ rel) = entry_at s rel"
    using entry_at_append[of fs' "wd @ [''.claude'']"] t by simp
  have "success_line (colours (fsx wd cs) p) \<in> set (trace (init (fsx wd cs) p fs))"
    unfolding i using success_line_report[of "colours (fsx wd cs) p"] by simp
  then have m: "Log [chalk (cs (argv p) (environ p)) Green
                  (NL # '' Successfully created .claude directory!'' @ [NL])]
             \<in> set (trace (init (fsx wd cs) p fs))"
    by (simp add: success_line_def colours_def fsx_simps)
  from l t r b m show ?thesis unfolding f by blast
qed

text \<open>
  The run in the project without \<^verbatim>\<open>.claude\<close>, and the run of a package whose
  \<^verbatim>\<open>templates\<close> directory is a link to \<^verbatim>\<open>/opt/tpl\<close>.
\<close>

theorem init_installs_template_witness:
  "wf ex_fresh \<and> entry_at ex_fresh (targetDir ex_wd) = None \<and>
   exit_code (init (fsx ex_wd (\<lambda>a v. True)) ex_process ex_fresh) = 0 \<and>
   entry_at (final_fs (init (fsx ex_wd (\<lambda>a v. True)) ex_process ex_fresh)) (ex_wd @ [''.claude''])
     = Some ex_template \<and>
   final_fs (init (fsx ex_wd (\<lambda>a v. True)) ex_process ex_fresh) = ex_installed \<and>
   wf ex_linked_package \<and> entry_at ex_linked_package (targetDir ex_wd) = None \<and>
   exit_code (init (fsx ex_wd (\<lambda>a v. True)) ex_process ex_linked_package) = 0 \<and>
   entry_at (final_fs (init (fsx ex_wd (\<lambda>a v. True)) ex_process ex_linked_package))
     (ex_wd @ [''.claude'']) = Some ex_template"
proof -
  have w1: "wf ex_fresh" by code_simp
  have n1: "entry_at ex_fresh (targetDir ex_wd) = None" by code_simp
  have x1: "exit_code (init (fsx ex_wd (\<lambda>a v. True)) ex_process ex_fresh) = 0" by code_simp
  have l1: "lstat ex_fresh (templateDir ex_process) = Inr ([''pkg'', ''templates'', ''.claude''], ex_template)"
    by code_simp
  have f1: "final_fs (init (fsx ex_wd (\<lambda>a v. True)) ex_process ex_fresh) = ex_installed" by code_simp
  have w2: "wf ex_linked_package" by code_simp
  have n2: "entry_at ex_linked_package (targetDir ex_wd) = None" by code_simp
  have x2: "exit_code (init (fsx ex_wd (\<lambda>a v. True)) ex_process ex_linked_package) = 0" by code_simp
  have l2: "lstat ex_linked_package (templateDir ex_process) = Inr ([''opt'', ''tpl'', ''.claude''], ex_template)"
    by code_simp
  from init_installs_template[OF w1 n1 x1] l1
  have a: "entry_at (final_fs (init (fsx ex_wd (\<lambda>a v. True)) ex_process ex_fresh)) (ex_wd @ [''.claude''])
     = Some ex_template" by auto
  from init_installs_template[OF w2 n2 x2] l2
  have b: "entry_at (final_fs (init (fsx ex_wd (\<lambda>a v. True)) ex_process ex_linked_package))
     (ex_wd @ [''.claude'']) = Some ex_template" by auto
  from w1 n1 x1 a f1 w2 n2 x2 b show ?thesis by blast
qed

subsection \<open>C3: a failing copy\<close>

text \<open>
  Claim C3. When the copy is attempted and raises an error, the run ends with exit code
  1 after printing on standard error the line \<^verbatim>\<open>Error initializing workflow:\<close> with the
  error, and the four lines of advice. The copy has been called once (no second attempt)
  and the filesystem is left as the failed copy left it (nothing is undone); the line
  announcing success is not printed. On the reference filesystem, a template path that
  leads to nothing is such an error: it is reported, and nothing has been written.
\<close>

theorem init_reports_copy_failure:
  "(process_cwd sys fs = Inr d \<and> \<not> pathExists sys fs (targetDir d) \<and>
    copy sys fs (templateDir p) (targetDir d) = (Some e, fs') \<longrightarrow>
      exit_code (init sys p fs) = 1 \<and>
      stderr_lines (trace (init sys p fs)) =
        [Err [chalk (colours sys p) Red (NL # '' Error initializing workflow:'')] (Some e),
         Err [chalk (colours sys p) Yellow (NL # '' Troubleshooting:'')] None,
         Err [chalk (colours sys p) Gray (''    Ensure you have write permissions in this directory'')] None,
         Err [chalk (colours sys p) Gray (''    Check that GQLify is properly installed'')] None,
         Err [chalk (colours sys p) Gray (''    Try running with elevated permissions if needed'' @ [NL])] None] \<and>
      library_calls (trace (init sys p fs)) =
        [PathExists (targetDir d), Copy (templateDir p) (targetDir d)] \<and>
      final_fs (init sys p fs) = fs' \<and>
      Log [chalk (colours sys p) Green (NL # '' Successfully created .claude directory!'' @ [NL])]
        \<notin> set (trace (init sys p fs))) \<and>
   (fsx_cwd wd g = Inr wd \<and> \<not> fsx_pathExists g (targetDir wd) \<and>
    lstat g (templateDir q) = Inl e' \<longrightarrow>
      exit_code (init (fsx wd cs) q g) = 1 \<and>
      Err [chalk (cs (argv q) (environ q)) Red (NL # '' Error initializing workflow:'')] (Some e')
        \<in> set (trace (init (fsx wd cs) q g)) \<and>
      final_fs (init (fsx wd cs) q g) = g)"
proof (intro conjI impI)
  assume a: "process_cwd sys fs = Inr d \<and> \<not> pathExists sys fs (targetDir d) \<and>
    copy sys fs (templateDir p) (targetDir d) = (Some e, fs')"
  then have i: "init sys p fs =
     \<lparr>trace = banner (colours sys p)
                @ [PathExists (targetDir d), copying_line (colours sys p) (templateDir p),
                   Copy (templateDir p) (targetDir d)]
                @ error_report (colours sys p) e,
      exit_code = 1, final_fs = fs'\<rparr>"
    by (simp add: init_failed)
  show "exit_code (init sys p fs) = 1" unfolding i by simp
  show "stderr_lines (trace (init sys p fs)) =
        [Err [chalk (colours sys p) Red (NL # '' Error initializing workflow:'')] (Some e),
         Err [chalk (colours sys p) Yellow (NL # '' Troubleshooting:'')] None,
         Err [chalk (colours sys p) Gray (''    Ensure you have write permissions in this directory'')] None,
         Err [chalk (colours sys p) Gray (''    Check that GQLify is properly installed'')] None,
         Err [chalk (colours sys p) Gray (''    Try running with elevated permissions if needed'' @ [NL])] None]"
    unfolding i by (simp add: stderr_simps) (simp add: error_report_literal)
  show "library_calls (trace (init sys p fs)) =
        [PathExists (targetDir d), Copy (templateDir p) (targetDir d)]"
    unfolding i by (simp add: calls_simps)
  show "final_fs (init sys p fs) = fs'" unfolding i by simp
  have "success_line (colours sys p) \<notin> set (trace (init sys p fs))"
    using a by (simp add: success_iff)
  then show "Log [chalk (colours sys p) Green (NL # '' Successfully created .claude directory!'' @ [NL])]
        \<notin> set (trace (init sys p fs))"
    unfolding success_literal .
next
  assume b: "fsx_cwd wd g = Inr wd \<and> \<not> fsx_pathExists g (targetDir wd) \<and>
    lstat g (templateDir q) = Inl e'"
  then obtain w es where dir: "entry_at g wd = Some (Dir w es)"
    using fsx_cwd_Inr[of wd g wd] by auto
  from b have l: "lstat g (templateDir q) = Inl e'" by simp
  have c: "copy (fsx wd cs) g (templateDir q) (targetDir wd) = (Some e', g)"
    using fsx_copy_no_source[OF dir l] by (simp add: fsx_simps targetDir_snoc)
  have i: "init (fsx wd cs) q g =
     \<lparr>trace = banner (colours (fsx wd cs) q)
                @ [PathExists (targetDir wd), copying_line (colours (fsx wd cs) q) (templateDir q),
                   Copy (templateDir q) (targetDir wd)]
                @ error_report (colours (fsx wd cs) q) e',
      exit_code = 1, final_fs = g\<rparr>"
    using b c by (intro init_failed) (simp_all add: fsx_simps)
  show "exit_code (init (fsx wd cs) q g) = 1" unfolding i by simp
  show "final_fs (init (fsx wd cs) q g) = g" unfolding i by simp
  show "Err [chalk (cs (argv q) (environ q)) Red (NL # '' Error initializing workflow:'')] (Some e')
        \<in> set (trace (init (fsx wd cs) q g))"
    unfolding i by (simp add: error_report_literal colours_def fsx_simps)
qed

text \<open>
  A template whose second file cannot be read: the copy fails after the directory and the
  first file have been written, and they stay. And an installation without template.
\<close>

theorem init_reports_copy_failure_witness:
  "process_cwd ex_sys ex_unreadable = Inr ex_wd \<and>
   \<not> pathExists ex_sys ex_unreadable (targetDir ex_wd) \<and>
   copy ex_sys ex_unreadable (templateDir ex_process) (targetDir ex_wd) = (Some EACCES, ex_partial) \<and>
   exit_code (init ex_sys ex_process ex_unreadable) = 1 \<and>
   final_fs (init ex_sys ex_process ex_unreadable) = ex_partial \<and>
   fsx_cwd ex_wd ex_no_template_fresh = Inr ex_wd \<and>
   \<not> fsx_pathExists ex_no_template_fresh (targetDir ex_wd) \<and>
   lstat ex_no_template_fresh (templateDir ex_process) = Inl ENOENT \<and>
   exit_code (init (fsx ex_wd (\<lambda>a v. True)) ex_process ex_no_template_fresh) = 1 \<and>
   final_fs (init (fsx ex_wd (\<lambda>a v. True)) ex_process ex_no_template_fresh) = ex_no_template_fresh"
proof -
  have h1: "process_cwd ex_sys ex_unreadable = Inr ex_wd" by code_simp
  have h2: "\<not> pathExists ex_sys ex_unreadable (targetDir ex_wd)" by code_simp
  have h3: "copy ex_sys ex_unreadable (templateDir ex_process) (targetDir ex_wd) = (Some EACCES, ex_partial)"
    by code_simp
  have g1: "fsx_cwd ex_wd ex_no_template_fresh = Inr ex_wd" by code_simp
  have g2: "\<not> fsx_pathExists ex_no_template_fresh (targetDir ex_wd)" by code_simp
  have g3: "lstat ex_no_template_fresh (templateDir ex_process) = Inl ENOENT" by code_simp
  from init_reports_copy_failure[where sys = ex_sys and fs = ex_unreadable and d = ex_wd
      and p = ex_process and e = EACCES and fs' = ex_partial and wd = ex_wd
      and g = ex_no_template_fresh and q = ex_process and e' = ENOENT and cs = "\<lambda>a v. True"]
    h1 h2 h3 g1 g2 g3
  show ?thesis by blast
qed

subsection \<open>C4: success is reported only after the copy\<close>

text \<open>
  Claim C4. The line \<^verbatim>\<open>Successfully created .claude directory!\<close> is printed in the runs
  whose copy was called and returned without error, and in no other run. In particular,
  on the reference filesystem, in a working directory the user may not write to and where
  the copy is attempted, the run ends with exit code 1, the line is not printed, the
  error report is, and nothing has been written.
\<close>

theorem success_only_after_copy:
  "(Log [chalk (colours sys p) Green (NL # '' Successfully created .claude directory!'' @ [NL])]
      \<in> set (trace (init sys p fs)) \<longleftrightarrow>
    (\<exists>d. process_cwd sys fs = Inr d \<and> \<not> pathExists sys fs (targetDir d) \<and>
         fst (copy sys fs (templateDir p) (targetDir d)) = None)) \<and>
   (entry_at g wd = Some (Dir False es) \<and> \<not> fsx_pathExists g (targetDir wd) \<longrightarrow>
      exit_code (init (fsx wd cs) q g) = 1 \<and>
      Log [chalk (cs (argv q) (environ q)) Green (NL # '' Successfully created .claude directory!'' @ [NL])]
        \<notin> set (trace (init (fsx wd cs) q g)) \<and>
      stderr_lines (trace (init (fsx wd cs) q g)) \<noteq> [] \<and>
      final_fs (init (fsx wd cs) q g) = g)"
proof (intro conjI impI)
  show "Log [chalk (colours sys p) Green (NL # '' Successfully created .claude directory!'' @ [NL])]
      \<in> set (trace (init sys p fs)) \<longleftrightarrow>
    (\<exists>d. process_cwd sys fs = Inr d \<and> \<not> pathExists sys fs (targetDir d) \<and>
         fst (copy sys fs (templateDir p) (targetDir d)) = None)"
    unfolding success_literal by (rule success_iff)
next
  assume a: "entry_at g wd = Some (Dir False es) \<and> \<not> fsx_pathExists g (targetDir wd)"
  then have dir: "entry_at g wd = Some (Dir False es)"
    and ne: "\<not> fsx_pathExists g (wd @ [''.claude''])" by (simp_all add: targetDir_snoc)
  from fsx_copy_readonly[OF dir ne, of wd "templateDir q"] obtain e
    where c: "fsx_copy wd g (templateDir q) (wd @ [''.claude'']) = (Some e, g)" by blast
  have cwd: "process_cwd (fsx wd cs) g = Inr wd"
    using fsx_cwd_dir[OF dir] by (simp add: fsx_simps)
  have i: "init (fsx wd cs) q g =
     \<lparr>trace = banner (colours (fsx wd cs) q)
                @ [PathExists (targetDir wd), copying_line (colours (fsx wd cs) q) (templateDir q),
                   Copy (templateDir q) (targetDir wd)]
                @ error_report (colours (fsx wd cs) q) e,
      exit_code = 1, final_fs = g\<rparr>"
    using cwd ne c by (intro init_failed) (simp_all add: fsx_simps targetDir_snoc)
  show "exit_code (init (fsx wd cs) q g) = 1" unfolding i by simp
  show "final_fs (init (fsx wd cs) q g) = g" unfolding i by simp
  show "stderr_lines (trace (init (fsx wd cs) q g)) \<noteq> []"
    unfolding i by (simp add: stderr_simps error_report_nonempty)
  have "success_line (colours (fsx wd cs) q) \<notin> set (trace (init (fsx wd cs) q g))"
    using cwd ne c by (simp add: success_iff fsx_simps targetDir_snoc)
  then have "success_line (cs (argv q) (environ q)) \<notin> set (trace (init (fsx wd cs) q g))"
    by (simp add: colours_def fsx_simps)
  then show "Log [chalk (cs (argv q) (environ q)) Green (NL # '' Successfully created .claude directory!'' @ [NL])]
        \<notin> set (trace (init (fsx wd cs) q g))"
    unfolding success_literal .
qed

text \<open>The run in the project directory the user may not write to.\<close>

theorem success_only_after_copy_witness:
  "entry_at ex_readonly ex_wd = Some (Dir False [(''package.json'', File True ''{}'')]) \<and>
   \<not> fsx_pathExists ex_readonly (targetDir ex_wd) \<and>
   exit_code (init (fsx ex_wd (\<lambda>a v. True)) ex_process ex_readonly) = 1 \<and>
   stderr_lines (trace (init (fsx ex_wd (\<lambda>a v. True)) ex_process ex_readonly)) \<noteq> [] \<and>
   final_fs (init (fsx ex_wd (\<lambda>a v. True)) ex_process ex_readonly) = ex_readonly"
proof -
  have h1: "entry_at ex_readonly ex_wd = Some (Dir False [(''package.json'', File True ''{}'')])"
    by code_simp
  have h2: "\<not> fsx_pathExists ex_readonly (targetDir ex_wd)" by code_simp
  from success_only_after_copy[where g = ex_readonly and wd = ex_wd
      and es = "[(''package.json'', File True ''{}'')]" and cs = "\<lambda>a v. True" and q = ex_process
      and sys = ex_sys and p = ex_process and fs = ex_fresh] h1 h2
  show ?thesis by blast
qed

subsection \<open>C5: what the routine reads and writes\<close>

text \<open>
  Claim C5. The calls made to the library are the existence test of
  \<^verbatim>\<open>.claude\<close> in the working directory and, when it fails, one copy from
  \<^verbatim>\<open>../../../templates/.claude\<close> relative to the directory of the compiled module to
  \<^verbatim>\<open>.claude\<close> in the working directory; the filesystem after the run is the one the run
  started with, or the one that copy, with these two paths, returned. The command line
  and the environment decide neither the calls, nor the exit code, nor the resulting
  filesystem. On the reference filesystem, a place that is neither \<^verbatim>\<open>.claude\<close> of the
  working directory, nor below it, nor above it holds after the run what it held before,
  and every entry that is not \<^verbatim>\<open>.claude\<close> or below it is still there.
\<close>

theorem init_paths:
  "library_calls (trace (init sys p fs)) =
     (case process_cwd sys fs of
        Inl e \<Rightarrow> []
      | Inr d \<Rightarrow>
          if pathExists sys fs (d @ [''.claude'']) then [PathExists (d @ [''.claude''])]
          else [PathExists (d @ [''.claude'']),
                Copy (butlast (butlast (butlast (dirname p))) @ [''templates'', ''.claude''])
                     (d @ [''.claude''])]) \<and>
   final_fs (init sys p fs) =
     (case process_cwd sys fs of
        Inl e \<Rightarrow> fs
      | Inr d \<Rightarrow>
          if pathExists sys fs (d @ [''.claude'']) then fs
          else snd (copy sys fs (butlast (butlast (butlast (dirname p))) @ [''templates'', ''.claude''])
                      (d @ [''.claude'']))) \<and>
   library_calls (trace (init sys (p\<lparr>argv := a, environ := v\<rparr>) fs))
     = library_calls (trace (init sys p fs)) \<and>
   exit_code (init sys (p\<lparr>argv := a, environ := v\<rparr>) fs) = exit_code (init sys p fs) \<and>
   final_fs (init sys (p\<lparr>argv := a, environ := v\<rparr>) fs) = final_fs (init sys p fs) \<and>
   (\<not> prefix (wd @ [''.claude'']) x \<and> \<not> prefix x (wd @ [''.claude'']) \<longrightarrow>
      entry_at (final_fs (init (fsx wd cs) q g)) x = entry_at g x) \<and>
   (\<not> prefix (wd @ [''.claude'']) x \<and> entry_at g x = Some n \<longrightarrow>
      same_entry n (entry_at (final_fs (init (fsx wd cs) q g)) x))"
proof (intro conjI impI)
  show "library_calls (trace (init sys p fs)) =
     (case process_cwd sys fs of
        Inl e \<Rightarrow> []
      | Inr d \<Rightarrow>
          if pathExists sys fs (d @ [''.claude'']) then [PathExists (d @ [''.claude''])]
          else [PathExists (d @ [''.claude'']),
                Copy (butlast (butlast (butlast (dirname p))) @ [''templates'', ''.claude''])
                     (d @ [''.claude''])])"
    unfolding calls_init templateDir_butlast targetDir_snoc ..
  show "final_fs (init sys p fs) =
     (case process_cwd sys fs of
        Inl e \<Rightarrow> fs
      | Inr d \<Rightarrow>
          if pathExists sys fs (d @ [''.claude'']) then fs
          else snd (copy sys fs (butlast (butlast (butlast (dirname p))) @ [''templates'', ''.claude''])
                      (d @ [''.claude''])))"
    unfolding final_fs_init templateDir_butlast targetDir_snoc ..
  show "library_calls (trace (init sys (p\<lparr>argv := a, environ := v\<rparr>) fs))
     = library_calls (trace (init sys p fs))" by (rule init_argv_environ)
  show "exit_code (init sys (p\<lparr>argv := a, environ := v\<rparr>) fs) = exit_code (init sys p fs)"
    by (rule init_argv_environ)
  show "final_fs (init sys (p\<lparr>argv := a, environ := v\<rparr>) fs) = final_fs (init sys p fs)"
    by (rule init_argv_environ)
next
  assume a: "\<not> prefix (wd @ [''.claude'']) x \<and> \<not> prefix x (wd @ [''.claude''])"
  show "entry_at (final_fs (init (fsx wd cs) q g)) x = entry_at g x"
  proof (cases rule: init_fsx_final[where wd = wd and cs = cs and q = q and g = g])
    case same
    then show ?thesis by simp
  next
    case (copy w es e)
    from a fsx_copy_apart[OF copy(1) copy(2), of x] show ?thesis by simp
  qed
next
  assume a: "\<not> prefix (wd @ [''.claude'']) x \<and> entry_at g x = Some n"
  show "same_entry n (entry_at (final_fs (init (fsx wd cs) q g)) x)"
  proof (cases rule: init_fsx_final[where wd = wd and cs = cs and q = q and g = g])
    case same
    with a show ?thesis by (simp add: same_entry_refl)
  next
    case (copy w es e)
    from a fsx_copy_frame[OF copy(1) copy(2), of x n] show ?thesis by simp
  qed
qed

text \<open>
  The run in the project without \<^verbatim>\<open>.claude\<close>: the compiled routine
  (\<^verbatim>\<open>/pkg/dist/src/commands/init.js\<close>) and the file \<^verbatim>\<open>package.json\<close> of the project are
  as before, and only the template has been installed. With a \<^verbatim>\<open>chalk\<close> that colours
  only under an empty environment, the environment changes the printed lines, not the
  calls.
\<close>

theorem init_paths_witness:
  "\<not> prefix (ex_wd @ [''.claude'']) [''pkg'', ''dist'', ''src'', ''commands'', ''init.js''] \<and>
   \<not> prefix [''pkg'', ''dist'', ''src'', ''commands'', ''init.js''] (ex_wd @ [''.claude'']) \<and>
   entry_at (final_fs (init (fsx ex_wd (\<lambda>a v. v = [])) ex_process ex_fresh))
      [''pkg'', ''dist'', ''src'', ''commands'', ''init.js''] = Some (File True ''js'') \<and>
   \<not> prefix (ex_wd @ [''.claude'']) (ex_wd @ [''package.json'']) \<and>
   entry_at ex_fresh (ex_wd @ [''package.json'']) = Some (File True ''{}'') \<and>
   entry_at (final_fs (init (fsx ex_wd (\<lambda>a v. v = [])) ex_process ex_fresh))
      (ex_wd @ [''package.json'']) = Some (File True ''{}'') \<and>
   final_fs (init (fsx ex_wd (\<lambda>a v. v = [])) ex_process ex_fresh) = ex_installed \<and>
   entry_at ex_installed (ex_wd @ [''.claude'', ''init.js'']) = None \<and>
   trace (init (fsx ex_wd (\<lambda>a v. v = [])) (ex_process\<lparr>argv := [''init''], environ := [(''NO_COLOR'', ''1'')]\<rparr>) ex_fresh)
     \<noteq> trace (init (fsx ex_wd (\<lambda>a v. v = [])) ex_process ex_fresh) \<and>
   final_fs (init (fsx ex_wd (\<lambda>a v. v = [])) (ex_process\<lparr>argv := [''init''], environ := [(''NO_COLOR'', ''1'')]\<rparr>) ex_fresh)
     = ex_installed"
proof -
  have p1: "\<not> prefix (ex_wd @ [''.claude'']) [''pkg'', ''dist'', ''src'', ''commands'', ''init.js'']"
    by (simp add: ex_wd_def)
  have p2: "\<not> prefix [''pkg'', ''dist'', ''src'', ''commands'', ''init.js''] (ex_wd @ [''.claude''])"
    by (simp add: ex_wd_def)
  have p3: "\<not> prefix (ex_wd @ [''.claude'']) (ex_wd @ [''package.json''])"
    by (simp add: ex_wd_def)
  have e1: "entry_at ex_fresh [''pkg'', ''dist'', ''src'', ''commands'', ''init.js''] = Some (File True ''js'')"
    by code_simp
  have e2: "entry_at ex_fresh (ex_wd @ [''package.json'']) = Some (File True ''{}'')" by code_simp
  have f: "final_fs (init (fsx ex_wd (\<lambda>a v. v = [])) ex_process ex_fresh) = ex_installed" by code_simp
  have n: "entry_at ex_installed (ex_wd @ [''.claude'', ''init.js'']) = None" by code_simp
  have t: "trace (init (fsx ex_wd (\<lambda>a v. v = [])) (ex_process\<lparr>argv := [''init''], environ := [(''NO_COLOR'', ''1'')]\<rparr>) ex_fresh)
     \<noteq> trace (init (fsx ex_wd (\<lambda>a v. v = [])) ex_process ex_fresh)" by code_simp
  note a = init_paths[where wd = ex_wd and cs = "\<lambda>a v. v = []" and q = ex_process and g = ex_fresh
      and x = "[''pkg'', ''dist'', ''src'', ''commands'', ''init.js'']" and n = "File True ''js''"
      and sys = "fsx ex_wd (\<lambda>a v. v = [])" and p = ex_process and fs = ex_fresh
      and a = "[''init'']" and v = "[(''NO_COLOR'', ''1'')]"]
  note b = init_paths[where wd = ex_wd and cs = "\<lambda>a v. v = []" and q = ex_process and g = ex_fresh
      and x = "ex_wd @ [''package.json'']" and n = "File True ''{}''"
      and sys = "fsx ex_wd (\<lambda>a v. v = [])" and p = ex_process and fs = ex_fresh
      and a = "[''init'']" and v = "[(''NO_COLOR'', ''1'')]"]
  from a have "\<not> prefix (ex_wd @ [''.claude'']) [''pkg'', ''dist'', ''src'', ''commands'', ''init.js''] \<and>
      \<not> prefix [''pkg'', ''dist'', ''src'', ''commands'', ''init.js''] (ex_wd @ [''.claude'']) \<longrightarrow>
      entry_at (final_fs (init (fsx ex_wd (\<lambda>a v. v = [])) ex_process ex_fresh))
        [''pkg'', ''dist'', ''src'', ''commands'', ''init.js'']
      = entry_at ex_fresh [''pkg'', ''dist'', ''src'', ''commands'', ''init.js'']" by blast
  with p1 p2 e1 have 1: "entry_at (final_fs (init (fsx ex_wd (\<lambda>a v. v = [])) ex_process ex_fresh))
      [''pkg'', ''dist'', ''src'', ''commands'', ''init.js''] = Some (File True ''js'')" by metis
  from b have "\<not> prefix (ex_wd @ [''.claude'']) (ex_wd @ [''package.json'']) \<and>
      entry_at ex_fresh (ex_wd @ [''package.json'']) = Some (File True ''{}'') \<longrightarrow>
      same_entry (File True ''{}'')
        (entry_at (final_fs (init (fsx ex_wd (\<lambda>a v. v = [])) ex_process ex_fresh)) (ex_wd @ [''package.json'']))"
    by blast
  with p3 e2 have "same_entry (File True ''{}'')
        (entry_at (final_fs (init (fsx ex_wd (\<lambda>a v. v = [])) ex_process ex_fresh)) (ex_wd @ [''package.json'']))"
    by blast
  then have 2: "entry_at (final_fs (init (fsx ex_wd (\<lambda>a v. v = [])) ex_process ex_fresh))
      (ex_wd @ [''package.json'']) = Some (File True ''{}'')" by simp
  from a have "final_fs (init (fsx ex_wd (\<lambda>a v. v = [])) (ex_process\<lparr>argv := [''init''], environ := [(''NO_COLOR'', ''1'')]\<rparr>) ex_fresh)
     = final_fs (init (fsx ex_wd (\<lambda>a v. v = [])) ex_process ex_fresh)" by blast
  with f have 3: "final_fs (init (fsx ex_wd (\<lambda>a v. v = [])) (ex_process\<lparr>argv := [''init''], environ := [(''NO_COLOR'', ''1'')]\<rparr>) ex_fresh)
     = ex_installed" by simp
  from p1 p2 p3 e2 f n t 1 2 3 show ?thesis by blast
qed

subsection \<open>C6: what is at the destination is kept\<close>




subsection \<open>C7: one subcommand, one linear routine\<close>



subsection \<open>C8: what the existence guard fires on\<close>

text \<open>
  Claim C8, as amended. On the reference filesystem the guard fires, and the run is the
  skip (the banner, the existence test, the two lines of the warning, exit code 0,
  nothing written), when the entry \<^verbatim>\<open>.claude\<close> of the working directory is a directory or
  a regular file, whatever it holds. When the entry is a symbolic link the guard fires
  exactly when the link leads to an existing entry; when it leads nowhere the copy is
  attempted.
\<close>

theorem guard_fires_on_resolving_entries:
  "(entry_at fs (targetDir wd) = Some (Dir w es) \<longrightarrow>
      skipped (cs (argv p) (environ p)) wd fs (init (fsx wd cs) p fs)) \<and>
   (entry_at fs (targetDir wd) = Some (File r b) \<longrightarrow>
      skipped (cs (argv p) (environ p)) wd fs (init (fsx wd cs) p fs)) \<and>
   (entry_at fs (targetDir wd) = Some (Link a t) \<longrightarrow>
      (skipped (cs (argv p) (environ p)) wd fs (init (fsx wd cs) p fs)
         \<longleftrightarrow> link_leads_somewhere fs wd a t) \<and>
      (\<not> link_leads_somewhere fs wd a t \<longrightarrow>
         library_calls (trace (init (fsx wd cs) p fs)) =
           [PathExists (wd @ [''.claude'']), Copy (templateDir p) (wd @ [''.claude''])])) \<and>
   (skipped (cs (argv p) (environ p)) wd fs (init (fsx wd cs) p fs) \<longrightarrow>
      exit_code (init (fsx wd cs) p fs) = 0 \<and>
      final_fs (init (fsx wd cs) p fs) = fs \<and>
      trace (init (fsx wd cs) p fs) =
        banner (cs (argv p) (environ p)) @ [PathExists (wd @ [''.claude''])] @
        [Log [chalk (cs (argv p) (environ p)) Yellow
                (''  .claude directory already exists. Skipping initialization.'')],
         Log [chalk (cs (argv p) (environ p)) Gray
                (''   To reinstall, remove the existing .claude directory first.'')]])"
proof (intro conjI impI)
  assume a: "entry_at fs (targetDir wd) = Some (Dir w es)"
  from entry_cwd[OF a, of cs] obtain w0 es0 where dir: "entry_at fs wd = Some (Dir w0 es0)"
    and m: "map_of es0 ''.claude'' = Some (Dir w es)"
    and cwd: "process_cwd (fsx wd cs) fs = Inr wd" by blast
  have "fsx_pathExists fs (wd @ [''.claude''])" using m by (simp add: exists_slot[OF dir])
  then show "skipped (cs (argv p) (environ p)) wd fs (init (fsx wd cs) p fs)"
    by (simp add: skipped_fsx[OF cwd])
next
  assume a: "entry_at fs (targetDir wd) = Some (File r b)"
  from entry_cwd[OF a, of cs] obtain w0 es0 where dir: "entry_at fs wd = Some (Dir w0 es0)"
    and m: "map_of es0 ''.claude'' = Some (File r b)"
    and cwd: "process_cwd (fsx wd cs) fs = Inr wd" by blast
  have "fsx_pathExists fs (wd @ [''.claude''])" using m by (simp add: exists_slot[OF dir])
  then show "skipped (cs (argv p) (environ p)) wd fs (init (fsx wd cs) p fs)"
    by (simp add: skipped_fsx[OF cwd])
next
  assume a: "entry_at fs (targetDir wd) = Some (Link a t)"
  from entry_cwd[OF a, of cs] obtain w0 es0 where dir: "entry_at fs wd = Some (Dir w0 es0)"
    and m: "map_of es0 ''.claude'' = Some (Link a t)"
    and cwd: "process_cwd (fsx wd cs) fs = Inr wd" by blast
  have e: "fsx_pathExists fs (wd @ [''.claude'']) \<longleftrightarrow> link_leads_somewhere fs wd a t"
    using m by (simp add: exists_slot[OF dir])
  then show "skipped (cs (argv p) (environ p)) wd fs (init (fsx wd cs) p fs)
         \<longleftrightarrow> link_leads_somewhere fs wd a t"
    by (simp add: skipped_fsx[OF cwd])
  assume "\<not> link_leads_somewhere fs wd a t"
  with e have "\<not> pathExists (fsx wd cs) fs (targetDir wd)"
    by (simp add: fsx_simps targetDir_snoc)
  with cwd show "library_calls (trace (init (fsx wd cs) p fs)) =
           [PathExists (wd @ [''.claude'']), Copy (templateDir p) (wd @ [''.claude''])]"
    by (simp add: calls_init targetDir_snoc)
next
  assume s: "skipped (cs (argv p) (environ p)) wd fs (init (fsx wd cs) p fs)"
  then show "exit_code (init (fsx wd cs) p fs) = 0" by (simp add: skipped_def)
  from s show "final_fs (init (fsx wd cs) p fs) = fs" by (simp add: skipped_def)
  from s have "trace (init (fsx wd cs) p fs) =
        banner (cs (argv p) (environ p)) @ [PathExists (targetDir wd)] @
        already_exists_warning (cs (argv p) (environ p))"
    by (simp add: skipped_def)
  then show "trace (init (fsx wd cs) p fs) =
        banner (cs (argv p) (environ p)) @ [PathExists (wd @ [''.claude''])] @
        [Log [chalk (cs (argv p) (environ p)) Yellow
                (''  .claude directory already exists. Skipping initialization.'')],
         Log [chalk (cs (argv p) (environ p)) Gray
                (''   To reinstall, remove the existing .claude directory first.'')]]"
    unfolding warning_literal targetDir_snoc .
qed

text \<open>
  Runs where \<^verbatim>\<open>.claude\<close> is a directory, a regular file, a link to a directory reached
  through another link, and a link to nothing.
\<close>

theorem guard_fires_on_resolving_entries_witness:
  "entry_at ex_installed (targetDir ex_wd) = Some ex_template \<and>
   skipped True ex_wd ex_installed (init (fsx ex_wd (\<lambda>a v. True)) ex_process ex_installed) \<and>
   entry_at ex_file_at_target (targetDir ex_wd) = Some (File True ''notes'') \<and>
   skipped True ex_wd ex_file_at_target (init (fsx ex_wd (\<lambda>a v. True)) ex_process ex_file_at_target) \<and>
   entry_at ex_aliased (targetDir ex_wd) = Some (Link True [Name ''home'', Name ''alias'', Name ''conf'']) \<and>
   link_leads_somewhere ex_aliased ex_wd True [Name ''home'', Name ''alias'', Name ''conf''] \<and>
   skipped True ex_wd ex_aliased (init (fsx ex_wd (\<lambda>a v. True)) ex_process ex_aliased) \<and>
   exit_code (init (fsx ex_wd (\<lambda>a v. True)) ex_process ex_aliased) = 0 \<and>
   final_fs (init (fsx ex_wd (\<lambda>a v. True)) ex_process ex_aliased) = ex_aliased \<and>
   entry_at ex_dangling (targetDir ex_wd) = Some (Link True [Name ''home'', Name ''gone'']) \<and>
   \<not> link_leads_somewhere ex_dangling ex_wd True [Name ''home'', Name ''gone''] \<and>
   library_calls (trace (init (fsx ex_wd (\<lambda>a v. True)) ex_process ex_dangling)) =
     [PathExists (ex_wd @ [''.claude'']), Copy (templateDir ex_process) (ex_wd @ [''.claude''])]"
proof -
  have d: "entry_at ex_installed (targetDir ex_wd) = Some ex_template" by code_simp
  have d': "entry_at ex_installed (targetDir ex_wd) =
      Some (Dir True
        [(''README.md'', File True ''# GQLify''),
         (''skills'', Dir True [(''foo'', Dir True [(''SKILL.md'', File True ''name: foo'')])])])"
    using d by (simp add: ex_template_def)
  have f: "entry_at ex_file_at_target (targetDir ex_wd) = Some (File True ''notes'')" by code_simp
  have l: "entry_at ex_aliased (targetDir ex_wd) = Some (Link True [Name ''home'', Name ''alias'', Name ''conf''])"
    by code_simp
  have ll: "link_leads_somewhere ex_aliased ex_wd True [Name ''home'', Name ''alias'', Name ''conf'']"
    by code_simp
  have g: "entry_at ex_dangling (targetDir ex_wd) = Some (Link True [Name ''home'', Name ''gone''])"
    by code_simp
  have gl: "\<not> link_leads_somewhere ex_dangling ex_wd True [Name ''home'', Name ''gone'']"
    by code_simp
  from guard_fires_on_resolving_entries[where fs = ex_installed and wd = ex_wd and w = True
      and es = "[(''README.md'', File True ''# GQLify''),
         (''skills'', Dir True [(''foo'', Dir True [(''SKILL.md'', File True ''name: foo'')])])]"
      and cs = "\<lambda>a v. True" and p = ex_process] d'
  have 1: "skipped True ex_wd ex_installed (init (fsx ex_wd (\<lambda>a v. True)) ex_process ex_installed)"
    by blast
  from guard_fires_on_resolving_entries[where fs = ex_file_at_target and wd = ex_wd and r = True
      and b = "''notes''" and cs = "\<lambda>a v. True" and p = ex_process] f
  have 2: "skipped True ex_wd ex_file_at_target (init (fsx ex_wd (\<lambda>a v. True)) ex_process ex_file_at_target)"
    by blast
  from guard_fires_on_resolving_entries[where fs = ex_aliased and wd = ex_wd and a = True
      and t = "[Name ''home'', Name ''alias'', Name ''conf'']" and cs = "\<lambda>a v. True" and p = ex_process] l ll
  have 3: "skipped True ex_wd ex_aliased (init (fsx ex_wd (\<lambda>a v. True)) ex_process ex_aliased) \<and>
     exit_code (init (fsx ex_wd (\<lambda>a v. True)) ex_process ex_aliased) = 0 \<and>
     final_fs (init (fsx ex_wd (\<lambda>a v. True)) ex_process ex_aliased) = ex_aliased"
    by blast
  from guard_fires_on_resolving_entries[where fs = ex_dangling and wd = ex_wd and a = True
      and t = "[Name ''home'', Name ''gone'']" and cs = "\<lambda>a v. True" and p = ex_process] g gl
  have 4: "library_calls (trace (init (fsx ex_wd (\<lambda>a v. True)) ex_process ex_dangling)) =
     [PathExists (ex_wd @ [''.claude'']), Copy (templateDir ex_process) (ex_wd @ [''.claude''])]"
    by blast
  from d f l ll g gl 1 2 3 4 show ?thesis by blast
qed

text \<open>
  The entry \<^verbatim>\<open>.claude\<close> is a symbolic link to nothing: the guard does not fire, the copy
  is attempted, and it fails.
\<close>

theorem dangling_link_not_skipped:
  "entry_at ex_dangling (targetDir ex_wd) = Some (Link True [Name ''home'', Name ''gone'']) \<and>
   \<not> pathExists ex_sys ex_dangling (targetDir ex_wd) \<and>
   library_calls (trace (init ex_sys ex_process ex_dangling)) =
     [PathExists (targetDir ex_wd), Copy (templateDir ex_process) (targetDir ex_wd)] \<and>
   exit_code (init ex_sys ex_process ex_dangling) = 1 \<and>
   final_fs (init ex_sys ex_process ex_dangling) = ex_dangling"
  by code_simp

subsection \<open>C9: the skip branch does not touch the template\<close>

text \<open>
  Claim C9. When the destination exists, the routine returns with exit code 0 after the
  existence test of the destination, the only call it makes to the library. The copy is
  not called, so the outcome is the same whatever the copy would do, and whether or not
  the bundled template is there.
\<close>

theorem skip_never_reads_template:
  "process_cwd sys fs = Inr d \<Longrightarrow> pathExists sys fs (targetDir d) \<Longrightarrow>
     exit_code (init sys p fs) = 0 \<and>
     skipped (colours sys p) d fs (init sys p fs) \<and>
     library_calls (trace (init sys p fs)) = [PathExists (targetDir d)] \<and>
     init sys p fs = init (sys\<lparr>copy := c\<rparr>) p fs"
proof (intro conjI)
  assume cwd: "process_cwd sys fs = Inr d" and ex: "pathExists sys fs (targetDir d)"
  then show "exit_code (init sys p fs) = 0" by (simp add: init_skip)
  from cwd ex show "skipped (colours sys p) d fs (init sys p fs)" by (simp add: skipped_iff)
  from cwd ex show "library_calls (trace (init sys p fs)) = [PathExists (targetDir d)]"
    by (simp add: calls_init)
  have "colours (sys\<lparr>copy := c\<rparr>) p = colours sys p" by (simp add: colours_def)
  with cwd ex show "init sys p fs = init (sys\<lparr>copy := c\<rparr>) p fs"
    by (simp add: init_skip)
qed

text \<open>A run without bundled template, in a project that has \<^verbatim>\<open>.claude\<close>.\<close>

theorem skip_never_reads_template_witness:
  "process_cwd ex_sys ex_no_template = Inr ex_wd \<and>
   pathExists ex_sys ex_no_template (targetDir ex_wd) \<and>
   lstat ex_no_template (templateDir ex_process) = Inl ENOENT \<and>
   exit_code (init ex_sys ex_process ex_no_template) = 0 \<and>
   skipped (colours ex_sys ex_process) ex_wd ex_no_template (init ex_sys ex_process ex_no_template) \<and>
   init ex_sys ex_process ex_no_template
     = init (ex_sys\<lparr>copy := \<lambda>fs s t. (Some ENOENT, fs)\<rparr>) ex_process ex_no_template"
proof -
  have h0: "process_cwd ex_sys ex_no_template = Inr ex_wd" by code_simp
  have h1: "pathExists ex_sys ex_no_template (targetDir ex_wd)" by code_simp
  have h2: "lstat ex_no_template (templateDir ex_process) = Inl ENOENT" by code_simp
  show ?thesis
    using skip_never_reads_template[OF h0 h1, of ex_process "\<lambda>fs s t. (Some ENOENT, fs)"] h0 h1 h2
    by blast
qed

subsection \<open>C10: the exit code\<close>

text \<open>
  Claim C10, as amended. The exit code of a run is 0 or 1. The \<^verbatim>\<open>catch\<close> block runs, and
  prints its five lines on standard error, exactly in the runs whose copy was attempted
  and failed, and those runs end with exit code 1. One other run ends with a code other
  than 0: when \<^verbatim>\<open>process.cwd()\<close> throws, before the \<^verbatim>\<open>try\<close>, the run ends with exit code 1
  and the routine has written nothing on standard error. The skip and the successful
  copy return with exit code 0.
\<close>

theorem init_exit_code:
  "exit_code (init sys p fs) =
     (case process_cwd sys fs of
        Inl e \<Rightarrow> 1
      | Inr d \<Rightarrow>
          if pathExists sys fs (d @ [''.claude'']) then 0
          else (case fst (copy sys fs (templateDir p) (d @ [''.claude''])) of
                  None \<Rightarrow> 0
                | Some e \<Rightarrow> 1)) \<and>
   stderr_lines (trace (init sys p fs)) =
     (case process_cwd sys fs of
        Inl e \<Rightarrow> []
      | Inr d \<Rightarrow>
          if pathExists sys fs (d @ [''.claude'']) then []
          else (case fst (copy sys fs (templateDir p) (d @ [''.claude''])) of
                  None \<Rightarrow> []
                | Some e \<Rightarrow>
                    [Err [chalk (colours sys p) Red (NL # '' Error initializing workflow:'')] (Some e),
                     Err [chalk (colours sys p) Yellow (NL # '' Troubleshooting:'')] None,
                     Err [chalk (colours sys p) Gray (''    Ensure you have write permissions in this directory'')] None,
                     Err [chalk (colours sys p) Gray (''    Check that GQLify is properly installed'')] None,
                     Err [chalk (colours sys p) Gray (''    Try running with elevated permissions if needed'' @ [NL])] None]))"
proof (cases rule: init_cases[where sys = sys and fs = fs and p = p])
  case (uncaught e)
  then show ?thesis by (simp add: init_uncaught stderr_simps)
next
  case (skip d)
  then show ?thesis by (simp add: init_skip stderr_simps targetDir_snoc[symmetric])
next
  case (copied d fs')
  then show ?thesis by (simp add: init_copied stderr_simps targetDir_snoc[symmetric])
next
  case (failed d e fs')
  then show ?thesis
    by (simp add: init_failed stderr_simps targetDir_snoc[symmetric]) (simp add: error_report_def)
qed

text \<open>
  The working directory of the process has been removed: exit code 1, and the \<^verbatim>\<open>catch\<close>
  block has not run.
\<close>

theorem removed_cwd_exits_1_without_catch:
  "process_cwd ex_sys ex_removed_home = Inl ENOENT \<and>
   exit_code (init ex_sys ex_process ex_removed_home) = 1 \<and>
   stderr_lines (trace (init ex_sys ex_process ex_removed_home)) = [] \<and>
   final_fs (init ex_sys ex_process ex_removed_home) = ex_removed_home"
  by code_simp

end
